theory Spec2Isabelle
  imports Main "HOL-Library.Word" "HOL-Library.Char_ord" "HOL-Library.List_Lexorder"
begin

section \<open>Python values, errors and containers\<close>

text \<open>
  The reader of \<^verbatim>\<open>variantworks/io/vcfio.py\<close> is embedded function by function.
  Every \<^verbatim>\<open>raise\<close> and every failing Python operation is a value \<open>Inl e\<close> of
  the result type \<open>error + 'a\<close>.
\<close>

datatype error =
    RuntimeError "string list"
  | KeyError string
  | IndexError
  | TypeError
  | ValueError
  | ZeroDivisionError
  | AttributeError

definition ebind :: "error + 'a \<Rightarrow> ('a \<Rightarrow> error + 'b) \<Rightarrow> error + 'b" where
  "ebind m f = (case m of Inl e \<Rightarrow> Inl e | Inr x \<Rightarrow> f x)"

text \<open>A \<^verbatim>\<open>for\<close> loop over a list whose body updates a state and may raise.\<close>

fun efold :: "('a \<Rightarrow> 's \<Rightarrow> error + 's) \<Rightarrow> 'a list \<Rightarrow> 's \<Rightarrow> error + 's" where
  "efold f [] s = Inr s"
| "efold f (x # xs) s = (case f x s of Inl e \<Rightarrow> Inl e | Inr s' \<Rightarrow> efold f xs s')"

text \<open>Indexing a sequence with a non-negative index (all indices of the source are).\<close>

definition py_index :: "'a list \<Rightarrow> nat \<Rightarrow> error + 'a" where
  "py_index xs i = (if i < length xs then Inr (xs ! i) else Inl IndexError)"

datatype VariantZygosity = NONE | NO_VARIANT | HETEROZYGOUS | HOMOZYGOUS

datatype VariantType = SNP | INSERTION | DELETION

text \<open>
  The scalar values that travel through the reader. A float is carried as its 64 bits;
  no arithmetic is done on it. The two enumerations are \<^verbatim>\<open>IntEnum\<close>s declared in
  \<^verbatim>\<open>variantworks.types\<close>; a cell holding \<^verbatim>\<open>int(member)\<close> is written as the member.
\<close>

datatype pyval =
    PNone
  | PBool bool
  | PInt int
  | PFloat "64 word"
  | PStr string
  | PZyg VariantZygosity
  | PVType VariantType

text \<open>
  The builtins \<^verbatim>\<open>str\<close>, \<open>int\<close>, \<open>float\<close> and the truth value of an arbitrary
  value are not code of the repository: they are parameters of the model. So is the order
  in which Python iterates a set of strings: it follows the hashes of the process, not
  the program. \<open>set_order\<close> gives it for the elements in insertion order, and
  \<open>iter_set\<close> uses it where it is an enumeration of these elements.
\<close>

record builtins =
  py_str :: "pyval \<Rightarrow> string"
  py_int :: "pyval \<Rightarrow> error + int"
  py_float :: "pyval \<Rightarrow> error + 64 word"
  py_bool :: "pyval \<Rightarrow> bool"
  set_order :: "string list \<Rightarrow> string list"

definition iter_set :: "builtins \<Rightarrow> string list \<Rightarrow> string list" where
  "iter_set bi xs =
     (if set (set_order bi xs) = set xs \<and> distinct (set_order bi xs)
      then set_order bi xs else xs)"

text \<open>\<^verbatim>\<open>str(i)\<close> and \<^verbatim>\<open>"{}".format(i)\<close> of an integer: its decimal numeral.\<close>

fun str_nat :: "nat \<Rightarrow> string" where
  "str_nat n =
     (if n < 10 then [''0123456789'' ! n]
      else str_nat (n div 10) @ [''0123456789'' ! (n mod 10)])"

declare str_nat.simps [simp del]

definition str_int :: "int \<Rightarrow> string" where
  "str_int i = (if i < 0 then CHR ''-'' # str_nat (nat (- i)) else str_nat (nat i))"

text \<open>
  A string is a list of code points below 256. On these, \<^verbatim>\<open>s.isdecimal()\<close> holds for
  the non-empty strings of the characters 0 to 9, and \<^verbatim>\<open>s.isdigit()\<close> also admits the
  superscripts two, three and one (U+00B2, U+00B3, U+00B9), which are digits to Unicode
  but no decimal digits.
\<close>

definition isdecimal :: "string \<Rightarrow> bool" where
  "isdecimal s = (s \<noteq> [] \<and> list_all (\<lambda>c. c \<in> set ''0123456789'') s)"

definition isdigit :: "string \<Rightarrow> bool" where
  "isdigit s =
     (s \<noteq> [] \<and> list_all (\<lambda>c. c \<in> set ''0123456789''
                                \<or> c \<in> set [CHR 0xB2, CHR 0xB3, CHR 0xB9]) s)"

definition digit_value :: "char \<Rightarrow> int" where
  "digit_value c = int (of_char c) - 48"

definition int_of_digits :: "string \<Rightarrow> int" where
  "int_of_digits s = foldl (\<lambda>acc c. 10 * acc + digit_value c) 0 s"

text \<open>
  \<^verbatim>\<open>int(s)\<close> for the strings on which the source calls it, those with
  \<^verbatim>\<open>s.isdigit()\<close>: the decimal value of a string of decimal digits, and a
  \<^verbatim>\<open>ValueError\<close> when a superscript is among the characters. (The interpreter's
  configurable limit on the number of digits is left out.)
\<close>

definition int_of_str :: "string \<Rightarrow> error + int" where
  "int_of_str s = (if isdecimal s then Inr (int_of_digits s) else Inl ValueError)"

text \<open>
  The value of a digit string as the spec reads "that integer literally": the sum of
  its digits weighted by powers of ten. It is compared with \<open>int_of_digits\<close> below.
\<close>

definition decimal_value :: "string \<Rightarrow> int" where
  "decimal_value s = (\<Sum>i<length s. digit_value (s ! i) * 10 ^ (length s - Suc i))"

text \<open>\<^verbatim>\<open>s.split(sep)\<close> for a one-character separator.\<close>

fun py_split :: "char \<Rightarrow> string \<Rightarrow> string list" where
  "py_split sep [] = [[]]"
| "py_split sep (c # cs) =
     (if c = sep then [] # py_split sep cs
      else (case py_split sep cs of
              [] \<Rightarrow> [[c]]
            | w # ws \<Rightarrow> (c # w) # ws))"

section \<open>The record source (cyvcf2) as the reader uses it\<close>

text \<open>An INFO value is a scalar or a tuple (\<^verbatim>\<open>isinstance(val, tuple)\<close>).\<close>

datatype rawval = Scalar pyval | Tuple "pyval list"

text \<open>
  One \<^verbatim>\<open>cyvcf2.Variant\<close>: the attributes \<^verbatim>\<open>_create_df\<close> reads. \<open>INFO\<close> holds the
  (key, value) pairs of the record, as iterating the object yields them. \<open>genotypes\<close>
  holds, per sample, the list \<^verbatim>\<open>[allele0, allele1, phased]\<close>; the attribute hands out
  the same lists at every access, so what \<^verbatim>\<open>_create_df\<close> writes into them stays for
  the following alternate alleles of the record. \<open>format\<close> is
  \<^verbatim>\<open>variant.format(key)\<close>, one sequence per sample or \<open>None\<close>.
\<close>

record variant =
  CHROM :: string
  start :: int
  vend :: int
  ID :: pyval
  REF :: string
  ALT :: "string list"
  QUAL :: pyval
  FILTER :: "string option"
  INFO :: "(string \<times> rawval) list"
  genotypes :: "int list list"
  format :: "string \<Rightarrow> pyval list list option"

text \<open>
  \<^verbatim>\<open>key in variant.INFO\<close>: the class of the object defines no \<^verbatim>\<open>__contains__\<close>, so
  Python iterates the object and compares the key with each item it yields. The items
  are (key, value) pairs, and a string is never equal to a pair: the test is false for
  every key. \<^verbatim>\<open>variant.INFO[key]\<close> looks the key up.
\<close>

definition str_eq_item :: "string \<Rightarrow> string \<times> rawval \<Rightarrow> bool" where
  "str_eq_item key item = False"

definition info_contains :: "(string \<times> rawval) list \<Rightarrow> string \<Rightarrow> bool" where
  "info_contains info key = list_ex (str_eq_item key) info"

definition info_getitem :: "(string \<times> rawval) list \<Rightarrow> string \<Rightarrow> error + rawval" where
  "info_getitem info key = (case map_of info key of None \<Rightarrow> Inl (KeyError key) | Some v \<Rightarrow> Inr v)"

text \<open>A header line as the dictionary cyvcf2 returns for it.\<close>

record header_entry =
  HeaderType :: string
  h_ID :: string
  Number :: string
  Type :: string

text \<open>
  An opened \<^verbatim>\<open>cyvcf2.VCF\<close>: sample names, the header lines, the lookup
  \<^verbatim>\<open>get_header_type\<close> (it raises for an unknown key), and the stream of records the
  handle yields for the configured regions.
\<close>

record vcf =
  samples :: "string list"
  header_iter :: "header_entry list"
  get_header_type :: "string \<Rightarrow> error + header_entry"
  records :: "variant list"

section \<open>The reader's state\<close>

text \<open>
  \<^verbatim>\<open>df_dict\<close> is a \<^verbatim>\<open>defaultdict(list)\<close>: column name to the list of its cells, in
  insertion order. A data frame is kept in the same shape, all columns of one length.
\<close>

type_synonym df_dict = "(string \<times> pyval list) list"

record reader =
  vcf_path :: string
  bams :: "string list"
  is_fp :: bool
  num_threads :: int
  chunksize :: int
  dataframe :: "df_dict option"
  sample_names :: "string list"
  info_vcf_keys :: "string list"
  info_vcf_key_counts :: "(string \<times> int option) list"
  filter_vcf_keys :: "string list"
  format_vcf_keys :: "string list"
  format_vcf_key_counts :: "(string \<times> int option) list"

section \<open>Variant type, zygosity, arity, value types\<close>

definition detect_variant_type :: "string \<Rightarrow> string \<Rightarrow> VariantType" where
  "detect_variant_type ref alt =
     (if length ref = length alt then SNP
      else if length ref < length alt then INSERTION
      else DELETION)"

text \<open>\<^verbatim>\<open>_detect_zygosity\<close>; the \<^verbatim>\<open>or\<close> does not read \<^verbatim>\<open>gt[1]\<close> when \<^verbatim>\<open>gt[0] == -1\<close>.\<close>

definition detect_zygosity :: "reader \<Rightarrow> int list \<Rightarrow> error + VariantZygosity" where
  "detect_zygosity self gt =
     (if is_fp self then Inr NO_VARIANT
      else ebind (py_index gt 0) (\<lambda>g0.
        if g0 = - 1 then Inr NONE
        else ebind (py_index gt 1) (\<lambda>g1.
          if g1 = - 1 then Inr NONE
          else if g0 = g1 then (if g0 = 0 then Inr NO_VARIANT else Inr HOMOZYGOUS)
          else Inr HETEROZYGOUS)))"

text \<open>
  \<^verbatim>\<open>_get_normalized_count\<close>; falling off the \<^verbatim>\<open>elif\<close> chain returns \<open>None\<close>, and
  \<^verbatim>\<open>int\<close> can raise.
\<close>

definition get_normalized_count :: "string \<Rightarrow> int \<Rightarrow> int \<Rightarrow> error + int option" where
  "get_normalized_count header_number num_alts num_samples =
     (if header_number = ''A'' then Inr (Some num_alts)
      else if header_number = ''R'' then Inr (Some (num_alts + 1))
      else if header_number = ''G'' then Inr (Some num_samples)
      else if isdigit header_number then
        ebind (int_of_str header_number) (\<lambda>n. Inr (Some n))
      else if header_number = ''.'' then Inr (Some 1)
      else Inr None)"

text \<open>\<^verbatim>\<open>_get_header_type_lambda\<close>: the conversion for a header type, or the raise.\<close>

definition get_header_type_lambda ::
    "builtins \<Rightarrow> string \<Rightarrow> error + (pyval \<Rightarrow> error + pyval)" where
  "get_header_type_lambda bi header_type =
     (if header_type = ''String'' then
        Inr (\<lambda>x. case x of PNone \<Rightarrow> Inr PNone | _ \<Rightarrow> Inr (PStr (py_str bi x)))
      else if header_type = ''Integer'' then
        Inr (\<lambda>x. case x of PNone \<Rightarrow> Inr PNone | _ \<Rightarrow> ebind (py_int bi x) (\<lambda>i. Inr (PInt i)))
      else if header_type = ''Float'' then
        Inr (\<lambda>x. case x of PNone \<Rightarrow> Inr PNone | _ \<Rightarrow> ebind (py_float bi x) (\<lambda>f. Inr (PFloat f)))
      else if header_type = ''Flag'' then
        Inr (\<lambda>x. case x of PNone \<Rightarrow> Inr (PBool False) | _ \<Rightarrow> Inr (PBool True))
      else Inl (RuntimeError [''Unknown VCF header type:'', header_type]))"

text \<open>
  \<^verbatim>\<open>fix_gt\<close> and the lines around it: the genotype of one sample is rewritten for
  the allele \<open>alt_id\<close> of the loop, and both sides are set to -1 when either is.
\<close>

definition fix_gt :: "int \<Rightarrow> int \<Rightarrow> int" where
  "fix_gt gt_alt_id loop_alt_id =
     (if gt_alt_id = loop_alt_id then 1
      else if gt_alt_id \<noteq> 0 then - 1
      else 0)"

definition fixup_gt :: "int list \<Rightarrow> int \<Rightarrow> error + int list" where
  "fixup_gt gt alt_id =
     ebind (py_index gt 0) (\<lambda>g0.
       let gt = gt[0 := fix_gt g0 alt_id] in
       ebind (py_index gt 1) (\<lambda>g1.
         let gt = gt[1 := fix_gt g1 alt_id] in
         Inr (if gt ! 0 = - 1 \<or> gt ! 1 = - 1 then gt[1 := - 1, 0 := - 1] else gt)))"

section \<open>The column dictionary and the data frame (pandas)\<close>

text \<open>\<^verbatim>\<open>df_dict[k].append(v)\<close> on the \<^verbatim>\<open>defaultdict(list)\<close>.\<close>

fun df_append :: "string \<Rightarrow> pyval \<Rightarrow> df_dict \<Rightarrow> df_dict" where
  "df_append k v [] = [(k, [v])]"
| "df_append k v (c # d) =
     (if fst c = k then (fst c, snd c @ [v]) # d else c # df_append k v d)"

definition col :: "df_dict \<Rightarrow> string \<Rightarrow> pyval list" where
  "col d k = (case map_of d k of None \<Rightarrow> [] | Some xs \<Rightarrow> xs)"

text \<open>\<^verbatim>\<open>len(df)\<close>: the common length of the columns, 0 without columns.\<close>

definition nrows :: "df_dict \<Rightarrow> nat" where
  "nrows d = (case d of [] \<Rightarrow> 0 | c # _ \<Rightarrow> length (snd c))"

text \<open>
  \<^verbatim>\<open>pd.DataFrame.from_dict\<close> raises on columns of different lengths. pandas also
  chooses a type per column and may store a cell in another form (a column of integers
  and \<open>None\<close> becomes floats with NaN); the model keeps the cells as they were appended,
  which is what a column of strings or of \<open>None\<close> alone holds.
\<close>

definition from_dict :: "df_dict \<Rightarrow> error + df_dict" where
  "from_dict d =
     (if list_all (\<lambda>c. length (snd c) = nrows d) d then Inr d else Inl ValueError)"

definition nan :: pyval where
  "nan = PFloat 0x7FF8000000000000"

text \<open>
  \<^verbatim>\<open>pd.concat(dfs, ignore_index=True)\<close>: the union of the columns in order of first
  appearance, a frame without a column contributing NaN cells; no frames is an error.
  The cells the frames hold are kept as they are (the change of storage type that NaN
  cells bring to a column of integers is left out, as above).
\<close>

definition pd_concat :: "df_dict list \<Rightarrow> error + df_dict" where
  "pd_concat dfs =
     (if dfs = [] then Inl ValueError
      else Inr (map (\<lambda>k. (k, concat (map (\<lambda>d. case map_of d k of
                                                  Some xs \<Rightarrow> xs
                                                | None \<Rightarrow> replicate (nrows d) nan) dfs)))
                    (rev (remdups (rev (concat (map (map fst) dfs)))))))"

text \<open>\<^verbatim>\<open>d[k] = v\<close> on an insertion-ordered dictionary.\<close>

fun dict_set :: "'k \<Rightarrow> 'v \<Rightarrow> ('k \<times> 'v) list \<Rightarrow> ('k \<times> 'v) list" where
  "dict_set k v [] = [(k, v)]"
| "dict_set k v (c # d) = (if fst c = k then (k, v) # d else c # dict_set k v d)"

text \<open>\<^verbatim>\<open>sep.join(xs)\<close>.\<close>

fun py_join :: "string \<Rightarrow> string list \<Rightarrow> string" where
  "py_join sep [] = []"
| "py_join sep [x] = x"
| "py_join sep (x # y # ys) = x @ sep @ py_join sep (y # ys)"

section \<open>Decomposition: \<^verbatim>\<open>_create_df\<close>\<close>

text \<open>Lines 291 to 298: the standard columns of one (record, alternate allele) row.\<close>

definition std_cols :: "variant \<Rightarrow> string \<Rightarrow> df_dict \<Rightarrow> df_dict" where
  "std_cols variant alt d =
     (let d = df_append ''chrom'' (PStr (CHROM variant)) d;
          d = df_append ''start_pos'' (PInt (start variant)) d;
          d = df_append ''end_pos'' (PInt (vend variant)) d;
          d = df_append ''id'' (ID variant) d;
          d = df_append ''ref'' (PStr (REF variant)) d;
          d = df_append ''alt'' (PStr alt) d;
          d = df_append ''variant_type'' (PVType (detect_variant_type (REF variant) alt)) d
      in df_append ''quality'' (QUAL variant) d)"

text \<open>Lines 301 to 304: one boolean column per configured filter key.\<close>

definition filter_cols :: "reader \<Rightarrow> variant \<Rightarrow> df_dict \<Rightarrow> df_dict" where
  "filter_cols self variant d =
     (let variant_filter = (case FILTER variant of None \<Rightarrow> ''PASS'' | Some f \<Rightarrow> f);
          filter_set = set (py_split CHR '';'' variant_filter)
      in foldl (\<lambda>d filter_col.
                  df_append (''FILTER_'' @ filter_col) (PBool (filter_col \<in> filter_set)) d)
           d (filter_vcf_keys self))"

text \<open>
  Lines 320 and 382: \<^verbatim>\<open>[None] * self._get_normalized_count(...)\<close>, a \<^verbatim>\<open>TypeError\<close>
  when the count is \<open>None\<close>.
\<close>

definition absent_val :: "string \<Rightarrow> variant \<Rightarrow> vcf \<Rightarrow> error + pyval list" where
  "absent_val header_number variant vcf =
     ebind (get_normalized_count header_number
              (int (length (ALT variant))) (int (length (samples vcf)))) (\<lambda>count.
     case count of
       None \<Rightarrow> Inl TypeError
     | Some n \<Rightarrow> Inr (replicate (nat n) PNone))"

text \<open>Lines 314 to 320: the raw values of an INFO key, or the placeholder.\<close>

definition info_val :: "vcf \<Rightarrow> variant \<Rightarrow> string \<Rightarrow> string \<Rightarrow> error + pyval list" where
  "info_val vcf variant header_number info_col =
     (if info_contains (INFO variant) info_col then
        ebind (info_getitem (INFO variant) info_col) (\<lambda>val.
        case val of Tuple vs \<Rightarrow> Inr vs | Scalar x \<Rightarrow> Inr [x])
      else absent_val header_number variant vcf)"

text \<open>Lines 378 to 382: the raw values of a FORMAT key for one sample, or the placeholder.\<close>

definition format_val ::
    "vcf \<Rightarrow> variant \<Rightarrow> string \<Rightarrow> string \<Rightarrow> nat \<Rightarrow> error + pyval list" where
  "format_val vcf variant header_number format_col sample_idx =
     (case format variant format_col of
        Some rows \<Rightarrow> py_index rows sample_idx
      | None \<Rightarrow> absent_val header_number variant vcf)"

text \<open>Lines 334, 335 and 398, 399: one column per index of a fixed-count field.\<close>

definition emit_indexed ::
    "(pyval \<Rightarrow> error + pyval) \<Rightarrow> string \<Rightarrow> pyval list \<Rightarrow> nat \<Rightarrow> df_dict \<Rightarrow> error + df_dict" where
  "emit_indexed header_python_type df_key val n d =
     efold (\<lambda>i d. ebind (py_index val i) (\<lambda>x.
                    ebind (header_python_type x) (\<lambda>y.
                    Inr (df_append (df_key @ ''_'' @ str_nat i) y d))))
       [0..<n] d"

text \<open>Lines 309 to 337: one INFO key of one row.\<close>

definition info_col_step ::
    "builtins \<Rightarrow> vcf \<Rightarrow> variant \<Rightarrow> nat \<Rightarrow> string \<Rightarrow> df_dict \<Rightarrow> error + df_dict" where
  "info_col_step bi vcf variant alt_idx info_col d =
     ebind (get_header_type vcf info_col) (\<lambda>h.
     let header_number = Number h in
     ebind (get_header_type_lambda bi (Type h)) (\<lambda>header_python_type.
     ebind (info_val vcf variant header_number info_col) (\<lambda>val.
     let df_key = ''INFO_'' @ info_col in
     if header_number = ''A'' then
       ebind (py_index val alt_idx) (\<lambda>x. Inr (df_append df_key x d))
     else if header_number = ''R'' then
       ebind (py_index val 0) (\<lambda>x0.
       ebind (header_python_type x0) (\<lambda>y0.
       let d = df_append (df_key @ ''_REF'') y0 d in
       ebind (py_index val (alt_idx + 1)) (\<lambda>x1.
       ebind (header_python_type x1) (\<lambda>y1.
       Inr (df_append (df_key @ ''_ALT'') y1 d)))))
     else if isdigit header_number then
       ebind (int_of_str header_number) (\<lambda>n.
       if n = 1 then
         ebind (py_index val 0) (\<lambda>x.
         ebind (header_python_type x) (\<lambda>y. Inr (df_append df_key y d)))
       else emit_indexed header_python_type df_key val (nat n) d)
     else if header_number = ''.'' then
       Inr (df_append df_key (PStr (py_join '','' (map (py_str bi) val))) d)
     else Inr d)))"

text \<open>
  Lines 364 to 372: the \<^verbatim>\<open>GT\<close> column of one sample. \<open>gs\<close> is the list
  \<^verbatim>\<open>variant.genotypes\<close> as the passes before have left it; the rewritten genotype is
  written back into it.
\<close>

definition gt_step ::
    "reader \<Rightarrow> nat \<Rightarrow> nat \<Rightarrow> string \<Rightarrow> int list list \<times> df_dict
       \<Rightarrow> error + int list list \<times> df_dict" where
  "gt_step self alt_idx sample_idx sample_name = (\<lambda>(gs, d).
     ebind (py_index gs sample_idx) (\<lambda>gt.
     let alt_id = int alt_idx + 1 in
     ebind (fixup_gt gt alt_id) (\<lambda>gt.
     let gs = gs[sample_idx := gt] in
     ebind (detect_zygosity self gt) (\<lambda>z.
     let d = df_append (sample_name @ ''_zyg'') (PZyg z) d in
     ebind (py_index gt 0) (\<lambda>g0.
     ebind (py_index gt 1) (\<lambda>g1.
     Inr (gs, df_append (sample_name @ ''_GT'') (PStr (str_int g0 @ ''/'' @ str_int g1)) d)))))))"

text \<open>Lines 374 to 401: any other FORMAT key of one sample.\<close>

definition format_val_step ::
    "builtins \<Rightarrow> vcf \<Rightarrow> variant \<Rightarrow> nat \<Rightarrow> string \<Rightarrow> nat \<Rightarrow> string \<Rightarrow> df_dict
       \<Rightarrow> error + df_dict" where
  "format_val_step bi vcf variant alt_idx format_col sample_idx sample_name d =
     ebind (get_header_type vcf format_col) (\<lambda>h.
     let header_number = Number h in
     ebind (get_header_type_lambda bi (Type h)) (\<lambda>header_python_type.
     ebind (format_val vcf variant header_number format_col sample_idx) (\<lambda>val.
     let df_key = sample_name @ ''_'' @ format_col in
     if header_number = ''A'' then
       ebind (py_index val alt_idx) (\<lambda>x.
       ebind (header_python_type x) (\<lambda>y. Inr (df_append df_key y d)))
     else if header_number = ''R'' then
       ebind (py_index val 0) (\<lambda>x0.
       ebind (header_python_type x0) (\<lambda>y0.
       let d = df_append (df_key @ ''_REF'') y0 d in
       ebind (py_index val (alt_idx + 1)) (\<lambda>x1.
       ebind (header_python_type x1) (\<lambda>y1.
       Inr (df_append (df_key @ ''_ALT'') y1 d)))))
     else if isdigit header_number then
       ebind (int_of_str header_number) (\<lambda>n.
       if n = 1 then
         ebind (py_index val 0) (\<lambda>x.
         ebind (header_python_type x) (\<lambda>y. Inr (df_append df_key y d)))
       else emit_indexed header_python_type df_key val (nat n) d)
     else if header_number = ''.'' then
       Inr (df_append df_key (PStr (py_join '','' (map (py_str bi) val))) d)
     else Inr d)))"

text \<open>Lines 340 to 401: one FORMAT key of one row, sample by sample.\<close>

definition format_col_step ::
    "builtins \<Rightarrow> reader \<Rightarrow> vcf \<Rightarrow> variant \<Rightarrow> nat \<Rightarrow> string
       \<Rightarrow> int list list \<times> df_dict \<Rightarrow> error + int list list \<times> df_dict" where
  "format_col_step bi self vcf variant alt_idx format_col =
     efold (\<lambda>(sample_idx, sample_name) (gs, d).
              if format_col = ''GT'' then gt_step self alt_idx sample_idx sample_name (gs, d)
              else ebind (format_val_step bi vcf variant alt_idx format_col sample_idx
                            sample_name d) (\<lambda>d. Inr (gs, d)))
       (enumerate 0 (samples vcf))"

text \<open>
  The body of the loop over the alternate alleles of one record, on the pair of the
  genotype lists and the column dictionary.
\<close>

definition alt_step ::
    "builtins \<Rightarrow> reader \<Rightarrow> vcf \<Rightarrow> variant \<Rightarrow> nat \<times> string
       \<Rightarrow> int list list \<times> df_dict \<Rightarrow> error + int list list \<times> df_dict" where
  "alt_step bi self vcf variant = (\<lambda>(alt_idx, alt) (gs, d).
     let d = std_cols variant alt d;
         d = filter_cols self variant d
     in ebind (efold (info_col_step bi vcf variant alt_idx) (info_vcf_keys self) d) (\<lambda>d.
        efold (format_col_step bi self vcf variant alt_idx) (format_vcf_keys self) (gs, d)))"

definition variant_step ::
    "builtins \<Rightarrow> reader \<Rightarrow> vcf \<Rightarrow> variant \<Rightarrow> df_dict \<Rightarrow> error + df_dict" where
  "variant_step bi self vcf variant d =
     ebind (efold (alt_step bi self vcf variant) (enumerate 0 (ALT variant))
              (genotypes variant, d)) (\<lambda>(gs, d). Inr d)"

definition create_df :: "builtins \<Rightarrow> reader \<Rightarrow> vcf \<Rightarrow> variant list \<Rightarrow> error + df_dict" where
  "create_df bi self vcf variant_list =
     ebind (efold (variant_step bi self vcf) variant_list []) from_dict"

section \<open>The worker: \<^verbatim>\<open>_parse_vcf_cyvcf\<close>\<close>

text \<open>
  Line 433: does the record with running index \<open>idx\<close> map to this thread? Python's
  \<^verbatim>\<open>//\<close> and \<^verbatim>\<open>%\<close> round as \<open>div\<close> and \<open>mod\<close> on \<open>int\<close> do, and raise on a
  zero divisor.
\<close>

definition maps_to_thread :: "reader \<Rightarrow> int \<Rightarrow> int \<Rightarrow> error + bool" where
  "maps_to_thread self thread_id idx =
     (if chunksize self = 0 then Inl ZeroDivisionError
      else if num_threads self = 0 then Inl ZeroDivisionError
      else Inr ((idx div chunksize self) mod num_threads self = thread_id))"

text \<open>The record indices below \<open>n\<close> that line 433 gives to a thread.\<close>

definition thread_indices :: "reader \<Rightarrow> int \<Rightarrow> nat \<Rightarrow> nat list" where
  "thread_indices self thread_id n =
     filter (\<lambda>idx. maps_to_thread self thread_id (int idx) = Inr True) [0..<n]"

text \<open>The loop body of lines 431 to 437, on the pair (\<open>variant_list\<close>, \<open>df_list\<close>).\<close>

definition parse_step ::
    "builtins \<Rightarrow> reader \<Rightarrow> vcf \<Rightarrow> int \<Rightarrow> nat \<times> variant
       \<Rightarrow> variant list \<times> df_dict list \<Rightarrow> error + variant list \<times> df_dict list" where
  "parse_step bi self vcf thread_id = (\<lambda>(idx, variant) (variant_list, df_list).
     ebind (maps_to_thread self thread_id (int idx)) (\<lambda>mine.
     if mine then
       (let variant_list = variant_list @ [variant] in
        if int idx mod chunksize self = 0 then
          ebind (create_df bi self vcf variant_list) (\<lambda>df. Inr ([], df_list @ [df]))
        else Inr (variant_list, df_list))
     else Inr (variant_list, df_list)))"

definition parse_vcf_cyvcf :: "builtins \<Rightarrow> reader \<Rightarrow> vcf \<Rightarrow> int \<Rightarrow> error + df_dict" where
  "parse_vcf_cyvcf bi self vcf thread_id =
     ebind (efold (parse_step bi self vcf thread_id) (enumerate 0 (records vcf)) ([], []))
       (\<lambda>(variant_list, df_list).
     ebind (if variant_list \<noteq> [] then
              ebind (create_df bi self vcf variant_list) (\<lambda>df. Inr (df_list @ [df]))
            else Inr df_list) (\<lambda>df_list.
     if df_list \<noteq> [] then pd_concat df_list else Inr []))"

section \<open>Schema resolution and the pool: \<^verbatim>\<open>_parallel_parse_vcf\<close>\<close>

definition header_ids :: "vcf \<Rightarrow> string \<Rightarrow> string list" where
  "header_ids vcf t = map h_ID (filter (\<lambda>h. HeaderType h = t) (header_iter vcf))"

text \<open>Lines 466 to 468 and 481 to 483: the count of every key, with one alternate allele.\<close>

definition key_counts ::
    "vcf \<Rightarrow> string list \<Rightarrow> (string \<times> int option) list \<Rightarrow> error + (string \<times> int option) list" where
  "key_counts vcf keys counts =
     efold (\<lambda>k counts. ebind (get_header_type vcf k) (\<lambda>h.
              ebind (get_normalized_count (Number h) 1 (int (length (samples vcf)))) (\<lambda>count.
              Inr (dict_set k count counts))))
       keys counts"

text \<open>
  Lines 457 to 487, all that runs before the pool is created. \<open>sample_names\<close> is a
  Python set; its elements are kept in insertion order, and \<^verbatim>\<open>__getitem__\<close> iterates
  them in the order \<open>iter_set\<close> gives.
\<close>

definition resolve_schema :: "reader \<Rightarrow> vcf \<Rightarrow> error + reader" where
  "resolve_schema self vcf =
     (let self = (if ''*'' \<in> set (info_vcf_keys self)
                  then self\<lparr>info_vcf_keys := header_ids vcf ''INFO''\<rparr> else self)
      in ebind (key_counts vcf (info_vcf_keys self) (info_vcf_key_counts self)) (\<lambda>c.
         let self = self\<lparr>info_vcf_key_counts := c\<rparr>;
             self = (if ''*'' \<in> set (filter_vcf_keys self)
                     then self\<lparr>filter_vcf_keys := header_ids vcf ''FILTER''\<rparr> else self);
             self = (if ''*'' \<in> set (format_vcf_keys self)
                     then self\<lparr>format_vcf_keys := header_ids vcf ''FORMAT''\<rparr> else self)
         in ebind (key_counts vcf (format_vcf_keys self) (format_vcf_key_counts self)) (\<lambda>c.
            let self = self\<lparr>format_vcf_key_counts := c\<rparr>
            in Inr (self\<lparr>sample_names :=
                       foldl (\<lambda>s x. if x \<in> set s then s else s @ [x])
                         (sample_names self) (samples vcf)\<rparr>))))"

text \<open>
  Lines 490 to 494: \<^verbatim>\<open>mp.Pool\<close> refuses fewer than one process; the results of the
  workers are taken in thread order, and the first failing worker fails the call.
\<close>

definition run_pool :: "builtins \<Rightarrow> reader \<Rightarrow> vcf \<Rightarrow> error + df_dict list" where
  "run_pool bi self vcf =
     (if num_threads self < 1 then Inl ValueError
      else efold (\<lambda>thread_id df_list.
                    ebind (parse_vcf_cyvcf bi self vcf (int thread_id)) (\<lambda>df.
                    Inr (df_list @ [df])))
             [0..<nat (num_threads self)] [])"

definition parallel_parse_vcf :: "builtins \<Rightarrow> reader \<Rightarrow> vcf \<Rightarrow> error + reader" where
  "parallel_parse_vcf bi self vcf =
     ebind (resolve_schema self vcf) (\<lambda>self.
     ebind (run_pool bi self vcf) (\<lambda>df_list.
     ebind (pd_concat df_list) (\<lambda>df.
     Inr (self\<lparr>dataframe := Some df\<rparr>))))"

text \<open>\<^verbatim>\<open>__init__\<close>: the fields as set before the parse, then the parse.\<close>

definition new_reader ::
    "string \<Rightarrow> string list \<Rightarrow> bool \<Rightarrow> string list \<Rightarrow> string list \<Rightarrow> string list \<Rightarrow> int \<Rightarrow> int
       \<Rightarrow> reader" where
  "new_reader path bam_list fp info_keys filter_keys format_keys threads chunk =
     \<lparr>vcf_path = path, bams = bam_list, is_fp = fp, num_threads = threads, chunksize = chunk,
      dataframe = None, sample_names = [], info_vcf_keys = info_keys,
      info_vcf_key_counts = [], filter_vcf_keys = filter_keys,
      format_vcf_keys = format_keys, format_vcf_key_counts = []\<rparr>"

section \<open>The accessors: \<^verbatim>\<open>df\<close>, \<^verbatim>\<open>__len__\<close>, \<^verbatim>\<open>__getitem__\<close>\<close>

definition df :: "reader \<Rightarrow> error + df_dict" where
  "df self =
     (case dataframe self of
        None \<Rightarrow> Inl (RuntimeError [''VCF data frame should be available.''])
      | Some d \<Rightarrow> Inr d)"

definition len :: "reader \<Rightarrow> error + nat" where
  "len self = (case dataframe self of None \<Rightarrow> Inl TypeError | Some d \<Rightarrow> Inr (nrows d))"

text \<open>\<^verbatim>\<open>.iloc[idx]\<close>: a negative index counts from the end.\<close>

definition iloc :: "df_dict \<Rightarrow> int \<Rightarrow> error + nat" where
  "iloc d idx =
     (let n = int (nrows d); j = (if idx < 0 then n + idx else idx)
      in if 0 \<le> j \<and> j < n then Inr (nat j) else Inl IndexError)"

text \<open>\<^verbatim>\<open>row[c]\<close> for row \<open>i\<close> of the frame.\<close>

definition row_get :: "df_dict \<Rightarrow> nat \<Rightarrow> string \<Rightarrow> error + pyval" where
  "row_get d i c = (case map_of d c of None \<Rightarrow> Inl (KeyError c) | Some xs \<Rightarrow> py_index xs i)"

datatype info_value = Single pyval | Multi "pyval list"

record Variant =
  var_chrom :: pyval
  var_pos :: pyval
  var_id :: pyval
  var_ref :: pyval
  var_allele :: pyval
  var_quality :: pyval
  var_filter :: "string list option"
  var_info :: "(string \<times> info_value) list"
  var_format :: "string list"
  var_type :: VariantType
  var_samples :: "pyval list list"
  var_zygosity :: "VariantZygosity list"
  var_vcf :: string
  var_bams :: "string list"

text \<open>Lines 100 to 107: the values of one sample, key by key.\<close>

definition call_data_key ::
    "df_dict \<Rightarrow> nat \<Rightarrow> (string \<times> int option) list \<Rightarrow> string \<Rightarrow> string \<Rightarrow> pyval list
       \<Rightarrow> error + pyval list" where
  "call_data_key d i counts call k call_data =
     (case map_of counts k of
        None \<Rightarrow> Inl (KeyError k)
      | Some count \<Rightarrow>
          if count = Some 1 then
            ebind (row_get d i (call @ ''_'' @ k)) (\<lambda>v. Inr (call_data @ [v]))
          else (case count of
                  None \<Rightarrow> Inl TypeError
                | Some n \<Rightarrow>
                    efold (\<lambda>j call_data.
                             ebind (row_get d i (call @ ''_'' @ k @ ''_'' @ str_nat j)) (\<lambda>v.
                             Inr (call_data @ [v])))
                      [0..<nat n] call_data))"

text \<open>Lines 99 to 109: the loop over the samples, on the pair (\<open>samples\<close>, \<open>zygosities\<close>).\<close>

definition getitem_samples ::
    "builtins \<Rightarrow> reader \<Rightarrow> df_dict \<Rightarrow> nat \<Rightarrow> string list
       \<Rightarrow> error + pyval list list \<times> VariantZygosity list" where
  "getitem_samples bi self d i format_keys =
     efold (\<lambda>call (samples, zygosities).
              ebind (efold (call_data_key d i (format_vcf_key_counts self) call) format_keys [])
                (\<lambda>call_data.
              ebind (row_get d i (call @ ''_zyg'')) (\<lambda>z.
              case z of
                PZyg zyg \<Rightarrow> Inr (samples @ [call_data], zygosities @ [zyg])
              | _ \<Rightarrow> Inl ValueError)))
       (iter_set bi (sample_names self)) ([], [])"

text \<open>Lines 112 to 115.\<close>

definition getitem_filter :: "builtins \<Rightarrow> reader \<Rightarrow> df_dict \<Rightarrow> nat \<Rightarrow> error + string list" where
  "getitem_filter bi self d i =
     efold (\<lambda>k var_filter.
              ebind (row_get d i (''FILTER_'' @ k)) (\<lambda>v.
              Inr (if py_bool bi v then var_filter @ [k] else var_filter)))
       (filter_vcf_keys self) []"

text \<open>Lines 118 to 126: the INFO dictionary, from the counts of schema resolution.\<close>

definition getitem_info ::
    "reader \<Rightarrow> df_dict \<Rightarrow> nat \<Rightarrow> error + (string \<times> info_value) list" where
  "getitem_info self d i =
     efold (\<lambda>(k, count) info.
              if count = Some 1 then
                ebind (row_get d i (''INFO_'' @ k)) (\<lambda>v. Inr (dict_set k (Single v) info))
              else (case count of
                      None \<Rightarrow> Inl TypeError
                    | Some n \<Rightarrow>
                        ebind (efold (\<lambda>j vals.
                                        ebind (row_get d i (''INFO_'' @ k @ ''_'' @ str_nat j))
                                          (\<lambda>v. Inr (vals @ [v])))
                                 [0..<nat n] []) (\<lambda>vals.
                        Inr (dict_set k (Multi vals) info))))
       (info_vcf_key_counts self) []"

definition getitem :: "builtins \<Rightarrow> reader \<Rightarrow> int \<Rightarrow> error + Variant" where
  "getitem bi self idx =
     (case dataframe self of
        None \<Rightarrow> Inl AttributeError
      | Some d \<Rightarrow>
          ebind (iloc d idx) (\<lambda>i.
          let format_keys = sort (map fst (format_vcf_key_counts self)) in
          ebind (getitem_samples bi self d i format_keys) (\<lambda>(samples, zygosities).
          ebind (getitem_filter bi self d i) (\<lambda>var_filter.
          ebind (getitem_info self d i) (\<lambda>info.
          ebind (row_get d i ''chrom'') (\<lambda>chrom.
          ebind (row_get d i ''start_pos'') (\<lambda>pos.
          ebind (row_get d i ''id'') (\<lambda>vid.
          ebind (row_get d i ''ref'') (\<lambda>ref.
          ebind (row_get d i ''alt'') (\<lambda>alt.
          ebind (row_get d i ''quality'') (\<lambda>quality.
          ebind (row_get d i ''variant_type'') (\<lambda>vt.
          case vt of
            PVType t \<Rightarrow>
              Inr \<lparr>var_chrom = chrom, var_pos = pos, var_id = vid, var_ref = ref,
                   var_allele = alt, var_quality = quality,
                   var_filter = (if var_filter \<noteq> [] then Some var_filter else None),
                   var_info = info, var_format = format_keys, var_type = t,
                   var_samples = samples, var_zygosity = zygosities,
                   var_vcf = vcf_path self, var_bams = bams self\<rparr>
          | _ \<Rightarrow> Inl ValueError))))))))))))"

section \<open>Shapes of the column dictionary\<close>

text \<open>
  A relation between two states of the column dictionary, used in the proofs about
  \<^verbatim>\<open>_create_df\<close>: column \<open>k\<close> is unchanged and no column is lost.
\<close>

definition kept :: "string \<Rightarrow> df_dict \<Rightarrow> df_dict \<Rightarrow> bool" where
  "kept k d d' \<longleftrightarrow> col d' k = col d k \<and> fst ` set d \<subseteq> fst ` set d'"

text \<open>
  The names of the standard columns, and the shape of a column dictionary after \<open>n\<close>
  rows over the column names \<open>K\<close>: no name twice, and every column of length \<open>n\<close>.
\<close>

definition std_keys :: "string list" where
  "std_keys = [''chrom'', ''start_pos'', ''end_pos'', ''id'', ''ref'', ''alt'',
     ''variant_type'', ''quality'']"

definition uniform :: "string set \<Rightarrow> nat \<Rightarrow> df_dict \<Rightarrow> bool" where
  "uniform K n d \<longleftrightarrow>
     distinct (map fst d) \<and> (d = [] \<and> n = 0 \<or> fst ` set d = K)
     \<and> (\<forall>k\<in>K. length (col d k) = n)"

section \<open>Inputs for the examples\<close>

text \<open>
  Builtins that refuse every conversion, for runs in which none is called; a header
  lookup by ID over a list of header lines; a VCF handle built from its parts; and a
  record with nothing but a position, a reference and alternate alleles.
\<close>

definition refusing_builtins :: builtins where
  "refusing_builtins =
     \<lparr>py_str = (\<lambda>v. []), py_int = (\<lambda>v. Inl ValueError),
      py_float = (\<lambda>v. Inl ValueError), py_bool = (\<lambda>v. False), set_order = (\<lambda>xs. xs)\<rparr>"

definition header_lookup :: "header_entry list \<Rightarrow> string \<Rightarrow> error + header_entry" where
  "header_lookup hs k =
     (case find (\<lambda>h. h_ID h = k) hs of None \<Rightarrow> Inl (KeyError k) | Some h \<Rightarrow> Inr h)"

definition vcf_of :: "string list \<Rightarrow> header_entry list \<Rightarrow> variant list \<Rightarrow> vcf" where
  "vcf_of ss hs rs =
     \<lparr>samples = ss, header_iter = hs, get_header_type = header_lookup hs, records = rs\<rparr>"

definition snv :: "string \<Rightarrow> string list \<Rightarrow> variant" where
  "snv r alts =
     \<lparr>CHROM = ''1'', start = 99, vend = 100, ID = PNone, REF = r, ALT = alts, QUAL = PNone,
      FILTER = None, INFO = [], genotypes = [], format = (\<lambda>k. None)\<rparr>"

text \<open>
  The same handle with other value types declared: \<open>retype f vcf\<close> puts \<open>f h\<close> in
  the place of the Type of every header line \<open>h\<close>, in the header lines and in what the
  lookup returns. It serves to state that a function does not look at the declared types.
\<close>

definition retype :: "(header_entry \<Rightarrow> string) \<Rightarrow> vcf \<Rightarrow> vcf" where
  "retype f vcf =
     vcf\<lparr>header_iter := map (\<lambda>h. h\<lparr>Type := f h\<rparr>) (header_iter vcf),
         get_header_type := (\<lambda>k. case get_header_type vcf k of
                                    Inl e \<Rightarrow> Inl e
                                  | Inr h \<Rightarrow> Inr (h\<lparr>Type := f h\<rparr>))\<rparr>"

section \<open>Basic facts\<close>

lemma ebind_Inr [simp]: "ebind (Inr x) f = f x"
  by (simp add: ebind_def)

lemma ebind_Inl [simp]: "ebind (Inl e) f = Inl e"
  by (simp add: ebind_def)

lemma ebind_Inr_iff: "ebind m f = Inr y \<longleftrightarrow> (\<exists>x. m = Inr x \<and> f x = Inr y)"
  by (cases m) simp_all

lemma ebind_Inl_iff:
  "ebind m f = Inl e \<longleftrightarrow> m = Inl e \<or> (\<exists>x. m = Inr x \<and> f x = Inl e)"
  by (cases m) simp_all

lemma isl_ebind_iff: "isl (ebind m f) \<longleftrightarrow> isl m \<or> (\<exists>x. m = Inr x \<and> isl (f x))"
  by (cases m) simp_all

lemma efold_fails:
  assumes "x \<in> set xs" and "\<And>s. isl (f x s)"
  shows "isl (efold f xs s)"
  using assms(1)
proof (induction xs arbitrary: s)
  case Nil
  then show ?case by simp
next
  case (Cons y ys)
  show ?case
  proof (cases "f y s")
    case (Inl e)
    then show ?thesis by simp
  next
    case (Inr s')
    with assms(2)[of s] have "x \<noteq> y" by auto
    with Cons.prems have "x \<in> set ys" by simp
    from Cons.IH[OF this] Inr show ?thesis by simp
  qed
qed

lemma std_cols_plain:
  "std_cols (snv ''A'' [''T'']) ''T'' []
   = [(''chrom'', [PStr ''1'']), (''start_pos'', [PInt 99]), (''end_pos'', [PInt 100]),
      (''id'', [PNone]), (''ref'', [PStr ''A'']), (''alt'', [PStr ''T'']),
      (''variant_type'', [PVType SNP]), (''quality'', [PNone])]"
  by (simp add: std_cols_def snv_def detect_variant_type_def)

lemma count_of_1: "get_normalized_count ''1'' a s = Inr (Some 1)"
  by (simp add: get_normalized_count_def isdigit_def isdecimal_def int_of_str_def
      int_of_digits_def digit_value_def)

lemma digit_char:
  "m < 10 \<Longrightarrow> ''0123456789'' ! m \<in> set ''0123456789''
     \<and> digit_value (''0123456789'' ! m) = int m"
proof -
  assume "m < 10"
  then have "m \<in> {0, 1, 2, 3, 4, 5, 6, 7, 8, 9}" by auto
  then show ?thesis by (auto simp: digit_value_def)
qed

lemma str_nat_digits:
  "list_all (\<lambda>c. c \<in> set ''0123456789'') (str_nat n) \<and> str_nat n \<noteq> []"
proof (induction n rule: str_nat.induct)
  case (1 n)
  show ?case
  proof (cases "n < 10")
    case True
    with digit_char[of n] show ?thesis
      by (subst str_nat.simps, subst (2) str_nat.simps) simp
  next
    case False
    with 1 digit_char[of "n mod 10"] show ?thesis
      by (subst str_nat.simps, subst (2) str_nat.simps) simp
  qed
qed

lemma int_of_digits_str_nat: "int_of_digits (str_nat n) = int n"
proof (induction n rule: str_nat.induct)
  case (1 n)
  show ?case
  proof (cases "n < 10")
    case True
    with digit_char[of n] show ?thesis
      by (subst str_nat.simps) (simp add: int_of_digits_def)
  next
    case False
    have "int_of_digits (str_nat n)
        = 10 * int_of_digits (str_nat (n div 10)) + digit_value (''0123456789'' ! (n mod 10))"
      using False by (subst str_nat.simps) (simp add: int_of_digits_def)
    also have "\<dots> = 10 * int (n div 10) + int (n mod 10)"
      using 1 False digit_char[of "n mod 10"] by simp
    also have "\<dots> = int n"
      by (simp add: zdiv_int zmod_int)
    finally show ?thesis .
  qed
qed

lemma isdecimal_str_nat: "isdecimal (str_nat n)"
  using str_nat_digits[of n] by (simp add: isdecimal_def)

lemma isdecimal_isdigit: "isdecimal s \<Longrightarrow> isdigit s"
  unfolding isdecimal_def isdigit_def
  by (elim conjE, intro conjI, assumption, erule list.pred_mono_strong, rule disjI1)

lemma isdigit_not_code:
  "isdigit s \<Longrightarrow> s \<noteq> ''A'' \<and> s \<noteq> ''R'' \<and> s \<noteq> ''G'' \<and> s \<noteq> ''.''"
  by (auto simp: isdigit_def)

lemma count_of_decimal:
  "isdecimal s \<Longrightarrow> get_normalized_count s a n = Inr (Some (int_of_digits s))"
  using isdigit_not_code[OF isdecimal_isdigit, of s]
  by (simp add: get_normalized_count_def isdecimal_isdigit int_of_str_def)

lemma info_contains_False [simp]: "info_contains info key = False"
  by (simp add: info_contains_def str_eq_item_def list_ex_iff)

lemma iter_set_Nil [simp]: "iter_set bi [] = []"
  by (auto simp: iter_set_def)

lemma int_of_digits_snoc: "int_of_digits (s @ [c]) = 10 * int_of_digits s + digit_value c"
  by (simp add: int_of_digits_def)

lemma decimal_value_snoc: "decimal_value (s @ [c]) = 10 * decimal_value s + digit_value c"
proof -
  have "(\<Sum>i<length s. digit_value ((s @ [c]) ! i) * 10 ^ (length (s @ [c]) - Suc i))
      = (\<Sum>i<length s. 10 * (digit_value (s ! i) * 10 ^ (length s - Suc i)))"
  proof (rule sum.cong)
    fix i assume "i \<in> {..<length s}"
    then have i: "i < length s" by simp
    then have "length (s @ [c]) - Suc i = Suc (length s - Suc i)" by simp
    with i show "digit_value ((s @ [c]) ! i) * 10 ^ (length (s @ [c]) - Suc i)
        = 10 * (digit_value (s ! i) * 10 ^ (length s - Suc i))"
      by (simp add: nth_append)
  qed simp
  then show ?thesis
    by (simp add: decimal_value_def sum_distrib_left)
qed

lemma int_of_digits_decimal: "int_of_digits s = decimal_value s"
proof (induction s rule: rev_induct)
  case Nil
  show ?case by (simp add: int_of_digits_def decimal_value_def)
next
  case (snoc c s)
  then show ?case by (simp add: int_of_digits_snoc decimal_value_snoc)
qed

section \<open>Zygosity\<close>

text \<open>
  Claim C1. For a reader that is not flagged as known false positive and the allele
  \<open>alt_id = 1\<close>, rewriting a raw genotype (lines 364 to 370) and classifying it gives:
  (0,0) NO_VARIANT, (0,1) HETEROZYGOUS, (1,1) HOMOZYGOUS, (-1,0) NONE and (2,1) NONE, the
  last because the rewrite sets both sides to -1. \<open>rest\<close> is what follows the two
  alleles in the genotype list (the phasing flag).
\<close>

theorem C1_zygosity_truth_table:
  assumes "\<not> is_fp self"
  shows "ebind (fixup_gt (0 # 0 # rest) 1) (detect_zygosity self) = Inr NO_VARIANT
    \<and> ebind (fixup_gt (0 # 1 # rest) 1) (detect_zygosity self) = Inr HETEROZYGOUS
    \<and> ebind (fixup_gt (1 # 1 # rest) 1) (detect_zygosity self) = Inr HOMOZYGOUS
    \<and> ebind (fixup_gt (- 1 # 0 # rest) 1) (detect_zygosity self) = Inr NONE
    \<and> ebind (fixup_gt (2 # 1 # rest) 1) (detect_zygosity self) = Inr NONE
    \<and> fixup_gt (2 # 1 # rest) 1 = Inr (- 1 # - 1 # rest)"
  using assms by (simp add: fixup_gt_def detect_zygosity_def py_index_def fix_gt_def)

theorem C1_zygosity_truth_table_witness:
  "\<not> is_fp (new_reader ''a.vcf'' [] False [] [] [''*''] 4 5000)
   \<and> ebind (fixup_gt [0, 1, 0] 1)
        (detect_zygosity (new_reader ''a.vcf'' [] False [] [] [''*''] 4 5000)) = Inr HETEROZYGOUS
   \<and> ebind (fixup_gt [2, 1, 0] 1)
        (detect_zygosity (new_reader ''a.vcf'' [] False [] [] [''*''] 4 5000)) = Inr NONE"
proof -
  have h: "\<not> is_fp (new_reader ''a.vcf'' [] False [] [] [''*''] 4 5000)"
    by (simp add: new_reader_def)
  from C1_zygosity_truth_table [OF h, of "[0]"] h show ?thesis by blast
qed

text \<open>
  Claim C7. With the known-false-positive flag set, \<^verbatim>\<open>_detect_zygosity\<close> returns
  NO_VARIANT for every genotype list, of any length and content: the genotype is not read.
\<close>

theorem C7_false_positive_override:
  "is_fp self \<Longrightarrow> detect_zygosity self gt = Inr NO_VARIANT"
  by (simp add: detect_zygosity_def)

theorem C7_false_positive_override_witness:
  "is_fp (new_reader ''a.vcf'' [] True [] [] [''*''] 4 5000)
   \<and> detect_zygosity (new_reader ''a.vcf'' [] True [] [] [''*''] 4 5000) [1, 1, 0]
       = Inr NO_VARIANT
   \<and> detect_zygosity (new_reader ''a.vcf'' [] True [] [] [''*''] 4 5000) [] = Inr NO_VARIANT"
proof -
  have h: "is_fp (new_reader ''a.vcf'' [] True [] [] [''*''] 4 5000)"
    by (simp add: new_reader_def)
  from C7_false_positive_override [OF h, of "[1, 1, 0]"]
    C7_false_positive_override [OF h, of "[]"] h
  show ?thesis by blast
qed

section \<open>Arity\<close>

text \<open>
  Claim C2. \<^verbatim>\<open>_get_normalized_count\<close> with alt count \<open>a\<close> and sample count \<open>s\<close>
  gives \<open>a\<close> for "A", \<open>a + 1\<close> for "R", \<open>s\<close> for "G", 1 for ".", and for a numeric
  string that integer: the decimal numeral of \<open>n\<close> gives \<open>n\<close>, and any string of
  decimal digits gives its decimal value.
\<close>

theorem C2_arity_table:
  "get_normalized_count ''A'' a s = Inr (Some a)
   \<and> get_normalized_count ''R'' a s = Inr (Some (a + 1))
   \<and> get_normalized_count ''G'' a s = Inr (Some s)
   \<and> get_normalized_count ''.'' a s = Inr (Some 1)
   \<and> get_normalized_count (str_nat n) a s = Inr (Some (int n))
   \<and> (isdecimal ds \<longrightarrow> get_normalized_count ds a s = Inr (Some (decimal_value ds)))"
proof -
  have "get_normalized_count (str_nat n) a s = Inr (Some (int n))"
    using count_of_decimal[OF isdecimal_str_nat, of n a s]
    by (simp add: int_of_digits_str_nat)
  moreover have "isdecimal ds \<longrightarrow> get_normalized_count ds a s = Inr (Some (decimal_value ds))"
    using count_of_decimal[of ds a s] by (simp add: int_of_digits_decimal)
  moreover have "get_normalized_count ''A'' a s = Inr (Some a)"
    "get_normalized_count ''R'' a s = Inr (Some (a + 1))"
    "get_normalized_count ''G'' a s = Inr (Some s)"
    "get_normalized_count ''.'' a s = Inr (Some 1)"
    by (simp_all add: get_normalized_count_def isdigit_def)
  ultimately show ?thesis by blast
qed

theorem C2_arity_table_witness:
  "isdecimal ''12'' \<and> get_normalized_count ''12'' 3 2 = Inr (Some 12)
   \<and> get_normalized_count ''R'' 3 2 = Inr (Some 4)"
proof -
  have d: "isdecimal ''12''" by (simp add: isdecimal_def)
  have v: "decimal_value ''12'' = 12"
    by (simp add: decimal_value_def digit_value_def lessThan_Suc numeral_2_eq_2)
  from C2_arity_table [of 3 2 0 "''12''"] d v show ?thesis by simp
qed

lemma superscript_not_ascii:
  "c \<in> set [CHR 0xB2, CHR 0xB3, CHR 0xB9] \<Longrightarrow> \<not> (of_char c :: nat) < 128"
proof -
  assume "c \<in> set [CHR 0xB2, CHR 0xB3, CHR 0xB9]"
  then consider "c = CHR 0xB2" | "c = CHR 0xB3" | "c = CHR 0xB9" by auto
  then show ?thesis by cases simp_all
qed

lemma ascii_not_isdigit:
  assumes "list_all (\<lambda>c. (of_char c :: nat) < 128) hn" "\<not> isdecimal hn"
  shows "\<not> isdigit hn"
proof
  assume d: "isdigit hn"
  have "c \<in> set ''0123456789''" if "c \<in> set hn" for c
  proof -
    from that assms(1) have "(of_char c :: nat) < 128" by (simp add: list_all_iff)
    moreover from that d
    have "c \<in> set ''0123456789'' \<or> c \<in> set [CHR 0xB2, CHR 0xB3, CHR 0xB9]"
      unfolding isdigit_def list_all_iff by blast
    ultimately show ?thesis using superscript_not_ascii[of c] by blast
  qed
  then have "list_all (\<lambda>c. c \<in> set ''0123456789'') hn" unfolding list_all_iff by blast
  moreover from d have "hn \<noteq> []" unfolding isdigit_def by blast
  ultimately have "isdecimal hn" unfolding isdecimal_def by blast
  with assms(2) show False by simp
qed

text \<open>
  Claim C10 says that for every Number code that is none of "A", "R", "G", "." and not a
  string of decimal digits, \<^verbatim>\<open>_get_normalized_count\<close> returns \<open>None\<close>. The superscript
  two is such a code, but \<^verbatim>\<open>isdigit\<close> accepts it and \<^verbatim>\<open>int\<close> then raises.
\<close>

theorem C10_counterexample:
  "[CHR 0xB2] \<noteq> ''A'' \<and> [CHR 0xB2] \<noteq> ''R'' \<and> [CHR 0xB2] \<noteq> ''G'' \<and> [CHR 0xB2] \<noteq> ''.''
   \<and> \<not> isdecimal [CHR 0xB2]
   \<and> get_normalized_count [CHR 0xB2] 2 1 = Inl ValueError"
  by (simp add: get_normalized_count_def isdigit_def isdecimal_def int_of_str_def ebind_def)

text \<open>
  Claim C10 as amended. For a Number code that is none of "A", "R", "G", "." and for
  which \<^verbatim>\<open>isdigit\<close> is false, \<^verbatim>\<open>_get_normalized_count\<close> returns \<open>None\<close>; the
  placeholder \<^verbatim>\<open>[None] * count\<close> then cannot be built: it raises, and so does the INFO
  step for a key with such a code. Every ASCII string that is not a non-empty string of
  decimal digits is one for which \<^verbatim>\<open>isdigit\<close> is false. For a code that
  \<^verbatim>\<open>isdigit\<close> accepts and that is no string of decimal digits,
  \<^verbatim>\<open>_get_normalized_count\<close> raises \<^verbatim>\<open>ValueError\<close>.
\<close>

theorem C10_unknown_number_no_count:
  "(hn \<noteq> ''A'' \<and> hn \<noteq> ''R'' \<and> hn \<noteq> ''G'' \<and> hn \<noteq> ''.'' \<and> \<not> isdigit hn
      \<longrightarrow> get_normalized_count hn a s = Inr None
        \<and> absent_val hn variant vcf = Inl TypeError
        \<and> (get_header_type vcf k = Inr h \<and> Number h = hn
            \<and> get_header_type_lambda bi (Type h) = Inr f
           \<longrightarrow> info_col_step bi vcf variant alt_idx k d = Inl TypeError))
   \<and> (list_all (\<lambda>c. (of_char c :: nat) < 128) hn \<and> \<not> isdecimal hn \<longrightarrow> \<not> isdigit hn)
   \<and> (isdigit hn \<and> \<not> isdecimal hn \<longrightarrow> get_normalized_count hn a s = Inl ValueError)"
proof (intro conjI)
  show "hn \<noteq> ''A'' \<and> hn \<noteq> ''R'' \<and> hn \<noteq> ''G'' \<and> hn \<noteq> ''.'' \<and> \<not> isdigit hn
      \<longrightarrow> get_normalized_count hn a s = Inr None
        \<and> absent_val hn variant vcf = Inl TypeError
        \<and> (get_header_type vcf k = Inr h \<and> Number h = hn
            \<and> get_header_type_lambda bi (Type h) = Inr f
           \<longrightarrow> info_col_step bi vcf variant alt_idx k d = Inl TypeError)"
    by (simp add: get_normalized_count_def absent_val_def info_col_step_def info_val_def)
  show "list_all (\<lambda>c. (of_char c :: nat) < 128) hn \<and> \<not> isdecimal hn \<longrightarrow> \<not> isdigit hn"
    using ascii_not_isdigit[of hn] by blast
  show "isdigit hn \<and> \<not> isdecimal hn \<longrightarrow> get_normalized_count hn a s = Inl ValueError"
    using isdigit_not_code[of hn] by (simp add: get_normalized_count_def int_of_str_def)
qed

theorem C10_unknown_number_no_count_witness:
  "\<not> isdigit ''-1'' \<and> get_normalized_count ''-1'' 2 1 = Inr None
   \<and> absent_val ''-1'' (snv ''A'' [''T'']) (vcf_of [] [] []) = Inl TypeError
   \<and> get_normalized_count [] 2 1 = Inr None"
proof -
  have h: "''-1'' \<noteq> ''A'' \<and> ''-1'' \<noteq> ''R'' \<and> ''-1'' \<noteq> ''G'' \<and> ''-1'' \<noteq> ''.'' \<and> \<not> isdigit ''-1''"
    and e: "[] \<noteq> ''A'' \<and> [] \<noteq> ''R'' \<and> [] \<noteq> ''G'' \<and> [] \<noteq> ''.'' \<and> \<not> isdigit []"
    by (simp_all add: isdigit_def)
  note a = C10_unknown_number_no_count [THEN conjunct1, THEN mp, OF h, of 2 1]
  note b = C10_unknown_number_no_count [THEN conjunct1, THEN mp, OF e, of 2 1]
  from h a [THEN conjunct1] a [THEN conjunct2, THEN conjunct1, of "snv ''A'' [''T'']" "vcf_of [] [] []"]
    b [THEN conjunct1]
  show ?thesis by simp
qed

section \<open>The table accessor\<close>

text \<open>
  Claim C9. The accessor \<^verbatim>\<open>df\<close> raises \<^verbatim>\<open>RuntimeError\<close> when the data frame is
  unset, as it is in a reader before the parse, and returns the data frame when one is
  present, as after a parse that returned.
\<close>

theorem C9_df_accessor:
  "(dataframe self = None
      \<longrightarrow> df self = Inl (RuntimeError [''VCF data frame should be available.'']))
   \<and> (dataframe self = Some d \<longrightarrow> df self = Inr d)
   \<and> df (new_reader path bam_list fp info_keys filter_keys format_keys threads chunk)
       = Inl (RuntimeError [''VCF data frame should be available.''])
   \<and> (parallel_parse_vcf bi self vcf = Inr self'
      \<longrightarrow> (\<exists>d'. dataframe self' = Some d' \<and> df self' = Inr d'))"
  by (auto simp: df_def new_reader_def parallel_parse_vcf_def ebind_def
      split: sum.splits option.splits)

theorem C9_df_accessor_witness:
  "dataframe (new_reader ''a.vcf'' [] False [] [] [''*''] 4 5000) = None
   \<and> df (new_reader ''a.vcf'' [] False [] [] [''*''] 4 5000)
       = Inl (RuntimeError [''VCF data frame should be available.''])
   \<and> dataframe ((new_reader ''a.vcf'' [] False [] [] [''*''] 4 5000)
         \<lparr>dataframe := Some [(''chrom'', [PStr ''1''])]\<rparr>) = Some [(''chrom'', [PStr ''1''])]
   \<and> df ((new_reader ''a.vcf'' [] False [] [] [''*''] 4 5000)
         \<lparr>dataframe := Some [(''chrom'', [PStr ''1''])]\<rparr>) = Inr [(''chrom'', [PStr ''1''])]"
proof -
  have h1: "dataframe (new_reader ''a.vcf'' [] False [] [] [''*''] 4 5000) = None"
    by (simp add: new_reader_def)
  have h2: "dataframe ((new_reader ''a.vcf'' [] False [] [] [''*''] 4 5000)
         \<lparr>dataframe := Some [(''chrom'', [PStr ''1''])]\<rparr>) = Some [(''chrom'', [PStr ''1''])]"
    by simp
  note a = C9_df_accessor [THEN conjunct1, THEN mp, OF h1]
  note b = C9_df_accessor [THEN conjunct2, THEN conjunct1, THEN mp, OF h2]
  from a b h1 h2 show ?thesis by simp
qed

section \<open>Chunks and threads\<close>

lemma maps_to_thread_pos:
  "1 \<le> chunksize self \<Longrightarrow> 1 \<le> num_threads self \<Longrightarrow>
   maps_to_thread self w i = Inr ((i div chunksize self) mod num_threads self = w)"
  by (simp add: maps_to_thread_def)

lemma thread_indices_mem:
  "1 \<le> chunksize self \<Longrightarrow> 1 \<le> num_threads self \<Longrightarrow>
   i \<in> set (thread_indices self w n)
     \<longleftrightarrow> i < n \<and> (int i div chunksize self) mod num_threads self = w"
  by (auto simp: thread_indices_def maps_to_thread_pos)

text \<open>
  Claim C4. For a chunk size and a thread count of at least 1, the test of line 433
  gives every record index below \<open>n\<close> to exactly one thread id in \<open>[0, num_threads)\<close>,
  and the indices of all threads together are exactly \<open>[0, n)\<close>.
\<close>

theorem C4_chunk_coverage:
  assumes "1 \<le> chunksize self" "1 \<le> num_threads self"
  shows "(\<forall>i<n. \<exists>!w. 0 \<le> w \<and> w < num_threads self \<and> i \<in> set (thread_indices self w n))
     \<and> (\<Union>w\<in>{0..<num_threads self}. set (thread_indices self w n)) = {0..<n}"
proof -
  have r: "0 \<le> (int i div chunksize self) mod num_threads self
      \<and> (int i div chunksize self) mod num_threads self < num_threads self" for i
    using assms(2) by simp
  have "\<exists>!w. 0 \<le> w \<and> w < num_threads self \<and> i \<in> set (thread_indices self w n)"
    if "i < n" for i
    using that r[of i] by (auto simp: thread_indices_mem[OF assms])
  moreover have "(\<Union>w\<in>{0..<num_threads self}. set (thread_indices self w n)) = {0..<n}"
    using r by (auto simp: thread_indices_mem[OF assms])
  ultimately show ?thesis by blast
qed

theorem C4_chunk_coverage_witness:
  "1 \<le> chunksize (new_reader ''a.vcf'' [] False [] [] [''*''] 3 2)
   \<and> 1 \<le> num_threads (new_reader ''a.vcf'' [] False [] [] [''*''] 3 2)
   \<and> (\<Union>w\<in>{0..<num_threads (new_reader ''a.vcf'' [] False [] [] [''*''] 3 2)}.
         set (thread_indices (new_reader ''a.vcf'' [] False [] [] [''*''] 3 2) w 7)) = {0..<7}
   \<and> thread_indices (new_reader ''a.vcf'' [] False [] [] [''*''] 3 2) 1 7 = [2, 3]"
proof -
  have h1: "1 \<le> chunksize (new_reader ''a.vcf'' [] False [] [] [''*''] 3 2)"
    and h2: "1 \<le> num_threads (new_reader ''a.vcf'' [] False [] [] [''*''] 3 2)"
    by (simp_all add: new_reader_def)
  note u = C4_chunk_coverage [OF h1 h2, THEN conjunct2, of 7]
  have e: "thread_indices (new_reader ''a.vcf'' [] False [] [] [''*''] 3 2) 1 7 = [2, 3]"
    by (simp add: thread_indices_def maps_to_thread_def new_reader_def upt_rec)
  from h1 h2 u e show ?thesis by blast
qed

section \<open>Unknown header types\<close>

lemma type_lambda_unknown:
  "header_type \<notin> {''String'', ''Integer'', ''Float'', ''Flag''} \<Longrightarrow>
   get_header_type_lambda bi header_type
     = Inl (RuntimeError [''Unknown VCF header type:'', header_type])"
  by (simp add: get_header_type_lambda_def)

subsection \<open>Schema resolution does not read the types\<close>

lemma header_ids_retype: "header_ids (retype f vcf) t = header_ids vcf t"
  by (simp add: header_ids_def retype_def filter_map comp_def)

lemma key_counts_retype: "key_counts (retype f vcf) keys counts = key_counts vcf keys counts"
proof -
  have "ebind (get_header_type (retype f vcf) k) (\<lambda>h.
          ebind (get_normalized_count (Number h) 1 (int (length (samples (retype f vcf)))))
            (\<lambda>count. Inr (dict_set k count c)))
      = ebind (get_header_type vcf k) (\<lambda>h.
          ebind (get_normalized_count (Number h) 1 (int (length (samples vcf))))
            (\<lambda>count. Inr (dict_set k count c)))" for k and c :: "(string \<times> int option) list"
    by (cases "get_header_type vcf k") (simp_all add: retype_def)
  then show ?thesis by (simp add: key_counts_def)
qed

lemma resolve_schema_retype: "resolve_schema self (retype f vcf) = resolve_schema self vcf"
proof -
  have s: "samples (retype f vcf) = samples vcf" by (simp add: retype_def)
  show ?thesis
    by (simp only: resolve_schema_def key_counts_retype header_ids_retype s)
qed

subsection \<open>The first key and the first record\<close>

lemma create_df_unknown_type:
  assumes "info_vcf_keys self = k # ks" "get_header_type vcf k = Inr h"
    "Type h \<notin> {''String'', ''Integer'', ''Float'', ''Flag''}" "ALT v \<noteq> []"
  shows "create_df bi self vcf (v # vs)
     = Inl (RuntimeError [''Unknown VCF header type:'', Type h])"
proof -
  obtain a as where alts: "ALT v = a # as" using assms(4) by (cases "ALT v") auto
  have "info_col_step bi vcf v 0 k d
      = Inl (RuntimeError [''Unknown VCF header type:'', Type h])" for d
    using assms(2) type_lambda_unknown[OF assms(3)] by (simp add: info_col_step_def)
  then have "alt_step bi self vcf v (0, a) (gs, d)
      = Inl (RuntimeError [''Unknown VCF header type:'', Type h])" for gs d
    using assms(1) by (simp add: alt_step_def Let_def)
  then have "variant_step bi self vcf v d
      = Inl (RuntimeError [''Unknown VCF header type:'', Type h])" for d
    using alts by (simp add: variant_step_def enumerate_simps)
  then show ?thesis by (simp add: create_df_def)
qed

lemma run_pool_unknown_type:
  assumes "info_vcf_keys self = k # ks" "get_header_type vcf k = Inr h"
    "Type h \<notin> {''String'', ''Integer'', ''Float'', ''Flag''}"
    "records vcf = v # vs" "ALT v \<noteq> []" "1 \<le> chunksize self" "1 \<le> num_threads self"
  shows "run_pool bi self vcf = Inl (RuntimeError [''Unknown VCF header type:'', Type h])"
proof -
  have c: "create_df bi self vcf [v] = Inl (RuntimeError [''Unknown VCF header type:'', Type h])"
    using create_df_unknown_type[OF assms(1,2,3,5)] .
  have "parse_step bi self vcf 0 (0, v) ([], [])
      = Inl (RuntimeError [''Unknown VCF header type:'', Type h])"
    using assms(6,7) c by (simp add: parse_step_def maps_to_thread_def)
  then have w: "parse_vcf_cyvcf bi self vcf 0
      = Inl (RuntimeError [''Unknown VCF header type:'', Type h])"
    using assms(4) by (simp add: parse_vcf_cyvcf_def enumerate_simps)
  obtain m where m: "nat (num_threads self) = Suc m"
    using assms(7) by (cases "nat (num_threads self)") auto
  show ?thesis
    using assms(7) w m by (simp add: run_pool_def upt_rec)
qed

lemma parse_unknown_type:
  assumes "resolve_schema self vcf = Inr self'" "info_vcf_keys self' = k # ks"
    "get_header_type vcf k = Inr h"
    "Type h \<notin> {''String'', ''Integer'', ''Float'', ''Flag''}"
    "records vcf = v # vs" "ALT v \<noteq> []" "1 \<le> chunksize self'" "1 \<le> num_threads self'"
  shows "parallel_parse_vcf bi self vcf
     = Inl (RuntimeError [''Unknown VCF header type:'', Type h])"
  using assms(1) run_pool_unknown_type[OF assms(2-8)]
  by (simp add: parallel_parse_vcf_def)

subsection \<open>Any key and any record\<close>

lemma info_col_step_unknown:
  assumes "get_header_type vcf k = Inr h"
    "Type h \<notin> {''String'', ''Integer'', ''Float'', ''Flag''}"
  shows "isl (info_col_step bi vcf v i k d)"
  using assms(1) type_lambda_unknown[OF assms(2)] by (simp add: info_col_step_def)

lemma format_val_step_unknown:
  assumes "get_header_type vcf k = Inr h"
    "Type h \<notin> {''String'', ''Integer'', ''Float'', ''Flag''}"
  shows "isl (format_val_step bi vcf v i k j n d)"
  using assms(1) type_lambda_unknown[OF assms(2)] by (simp add: format_val_step_def)

lemma format_col_step_unknown:
  assumes "get_header_type vcf k = Inr h"
    "Type h \<notin> {''String'', ''Integer'', ''Float'', ''Flag''}"
    "k \<noteq> ''GT''" "samples vcf \<noteq> []"
  shows "isl (format_col_step bi self vcf v i k s)"
proof -
  obtain a as where ss: "samples vcf = a # as" using assms(4) by (cases "samples vcf") auto
  obtain gs d where s: "s = (gs, d)" by (cases s)
  from format_val_step_unknown[OF assms(1,2), of bi v i 0 a d]
  obtain e where "format_val_step bi vcf v i k 0 a d = Inl e"
    by (cases "format_val_step bi vcf v i k 0 a d") auto
  then show ?thesis
    using assms(3) by (simp add: format_col_step_def ss s enumerate_simps)
qed

lemma alt_step_unknown:
  assumes "get_header_type vcf k = Inr h"
    "Type h \<notin> {''String'', ''Integer'', ''Float'', ''Flag''}"
    "k \<in> set (info_vcf_keys self)
     \<or> k \<in> set (format_vcf_keys self) \<and> k \<noteq> ''GT'' \<and> samples vcf \<noteq> []"
  shows "isl (alt_step bi self vcf v x s)"
proof -
  obtain i alt where x: "x = (i, alt)" by (cases x)
  obtain gs d where s: "s = (gs, d)" by (cases s)
  define d0 where "d0 = filter_cols self v (std_cols v alt d)"
  have eq: "alt_step bi self vcf v x s
      = ebind (efold (info_col_step bi vcf v i) (info_vcf_keys self) d0)
          (\<lambda>d. efold (format_col_step bi self vcf v i) (format_vcf_keys self) (gs, d))"
    by (simp add: alt_step_def x s Let_def d0_def)
  from assms(3) show ?thesis
  proof
    assume "k \<in> set (info_vcf_keys self)"
    then have "isl (efold (info_col_step bi vcf v i) (info_vcf_keys self) d0)"
      by (rule efold_fails) (rule info_col_step_unknown[OF assms(1,2)])
    then show ?thesis by (simp add: eq isl_ebind_iff)
  next
    assume f: "k \<in> set (format_vcf_keys self) \<and> k \<noteq> ''GT'' \<and> samples vcf \<noteq> []"
    then have k: "k \<in> set (format_vcf_keys self)" and g: "k \<noteq> ''GT''"
      and n: "samples vcf \<noteq> []" by blast+
    have "isl (efold (format_col_step bi self vcf v i) (format_vcf_keys self) t)" for t
      using k by (rule efold_fails) (rule format_col_step_unknown[OF assms(1,2) g n])
    then show ?thesis
      by (cases "efold (info_col_step bi vcf v i) (info_vcf_keys self) d0") (simp_all add: eq)
  qed
qed

lemma variant_step_unknown:
  assumes "get_header_type vcf k = Inr h"
    "Type h \<notin> {''String'', ''Integer'', ''Float'', ''Flag''}"
    "k \<in> set (info_vcf_keys self)
     \<or> k \<in> set (format_vcf_keys self) \<and> k \<noteq> ''GT'' \<and> samples vcf \<noteq> []"
    "ALT v \<noteq> []"
  shows "isl (variant_step bi self vcf v d)"
proof -
  obtain a as where alts: "ALT v = a # as" using assms(4) by (cases "ALT v") auto
  from alt_step_unknown[OF assms(1,2,3), of bi v "(0, a)" "(genotypes v, d)"]
  obtain e where "alt_step bi self vcf v (0, a) (genotypes v, d) = Inl e"
    by (cases "alt_step bi self vcf v (0, a) (genotypes v, d)") auto
  then show ?thesis
    by (simp add: variant_step_def alts enumerate_simps)
qed

lemma create_df_unknown:
  assumes "get_header_type vcf k = Inr h"
    "Type h \<notin> {''String'', ''Integer'', ''Float'', ''Flag''}"
    "k \<in> set (info_vcf_keys self)
     \<or> k \<in> set (format_vcf_keys self) \<and> k \<noteq> ''GT'' \<and> samples vcf \<noteq> []"
    "ALT v \<noteq> []" "v \<in> set vs"
  shows "isl (create_df bi self vcf vs)"
proof -
  have "isl (efold (variant_step bi self vcf) vs [])"
    using assms(5) by (rule efold_fails) (rule variant_step_unknown[OF assms(1,2,3,4)])
  then show ?thesis by (simp add: create_df_def isl_ebind_iff)
qed

text \<open>
  A worker whose list of pending records holds a record that cannot be decomposed
  either raises or still holds it after the loop; so it does when such a record is
  among those it takes from the stream.
\<close>

lemma pending_stays:
  assumes bad: "\<And>vs. v \<in> set vs \<Longrightarrow> isl (create_df bi self vcf vs)"
  shows "v \<in> set vl \<Longrightarrow>
    (case efold (parse_step bi self vcf tid) (enumerate n xs) (vl, dl) of
       Inl e \<Rightarrow> True | Inr s \<Rightarrow> v \<in> set (fst s))"
proof (induction xs arbitrary: n vl dl)
  case Nil
  then show ?case by simp
next
  case (Cons x xs)
  have in1: "v \<in> set (vl @ [x])" using Cons.prems by simp
  show ?case
  proof (cases "maps_to_thread self tid (int n)")
    case (Inl e)
    then show ?thesis by (simp add: enumerate_simps parse_step_def)
  next
    case (Inr mine)
    show ?thesis
    proof (cases "mine \<and> int n mod chunksize self = 0")
      case True
      from bad[OF in1] obtain e where "create_df bi self vcf (vl @ [x]) = Inl e"
        by (cases "create_df bi self vcf (vl @ [x])") auto
      with True Inr show ?thesis by (simp add: enumerate_simps parse_step_def)
    next
      case False
      show ?thesis
      proof (cases mine)
        case True
        with False Inr have "parse_step bi self vcf tid (n, x) (vl, dl) = Inr (vl @ [x], dl)"
          by (simp add: parse_step_def)
        with Cons.IH[OF in1, of "Suc n" dl] show ?thesis by (simp add: enumerate_simps)
      next
        case False
        with Inr have "parse_step bi self vcf tid (n, x) (vl, dl) = Inr (vl, dl)"
          by (simp add: parse_step_def)
        with Cons.IH[OF Cons.prems, of "Suc n" dl] show ?thesis by (simp add: enumerate_simps)
      qed
    qed
  qed
qed

lemma taken_stays:
  assumes bad: "\<And>vs. v \<in> set vs \<Longrightarrow> isl (create_df bi self vcf vs)"
    and mine: "maps_to_thread self tid (int j) = Inr True"
  shows "(j, v) \<in> set (enumerate n xs) \<Longrightarrow>
    (case efold (parse_step bi self vcf tid) (enumerate n xs) (vl, dl) of
       Inl e \<Rightarrow> True | Inr s \<Rightarrow> v \<in> set (fst s))"
proof (induction xs arbitrary: n vl dl)
  case Nil
  then show ?case by simp
next
  case (Cons x xs)
  show ?case
  proof (cases "(j, v) = (n, x)")
    case True
    then have jn: "j = n" and vx: "v = x" by simp_all
    have in1: "v \<in> set (vl @ [x])" using vx by simp
    show ?thesis
    proof (cases "int n mod chunksize self = 0")
      case True
      from bad[OF in1] obtain e where "create_df bi self vcf (vl @ [x]) = Inl e"
        by (cases "create_df bi self vcf (vl @ [x])") auto
      with True mine jn show ?thesis by (simp add: enumerate_simps parse_step_def)
    next
      case False
      with mine jn have "parse_step bi self vcf tid (n, x) (vl, dl) = Inr (vl @ [x], dl)"
        by (simp add: parse_step_def)
      with pending_stays[OF bad in1, of tid "Suc n" xs dl] show ?thesis
        by (simp add: enumerate_simps)
    qed
  next
    case False
    with Cons.prems have rest: "(j, v) \<in> set (enumerate (Suc n) xs)"
      by (auto simp: enumerate_simps)
    show ?thesis
    proof (cases "parse_step bi self vcf tid (n, x) (vl, dl)")
      case (Inl e)
      then show ?thesis by (simp add: enumerate_simps)
    next
      case (Inr s)
      obtain vl' dl' where s: "s = (vl', dl')" by (cases s)
      from Cons.IH[OF rest, of vl' dl'] Inr s show ?thesis by (simp add: enumerate_simps)
    qed
  qed
qed

lemma worker_fails:
  assumes bad: "\<And>vs. v \<in> set vs \<Longrightarrow> isl (create_df bi self vcf vs)"
    and mine: "maps_to_thread self tid (int j) = Inr True"
    and j: "j < length (records vcf)" "records vcf ! j = v"
  shows "isl (parse_vcf_cyvcf bi self vcf tid)"
proof -
  have "(j, v) \<in> set (enumerate 0 (records vcf))"
    using j by (simp add: in_set_enumerate_eq)
  from taken_stays[OF bad mine this, of "[]" "[]"]
  have ts: "case efold (parse_step bi self vcf tid) (enumerate 0 (records vcf)) ([], []) of
       Inl e \<Rightarrow> True | Inr s \<Rightarrow> v \<in> set (fst s)" .
  show ?thesis
  proof (cases "efold (parse_step bi self vcf tid) (enumerate 0 (records vcf)) ([], [])")
    case (Inl e)
    then show ?thesis by (simp add: parse_vcf_cyvcf_def)
  next
    case (Inr s)
    obtain vl dl where s: "s = (vl, dl)" by (cases s)
    with Inr ts have v: "v \<in> set vl" by simp
    then have ne: "vl \<noteq> []" by auto
    from bad[OF v] obtain e where "create_df bi self vcf vl = Inl e"
      by (cases "create_df bi self vcf vl") auto
    with Inr s ne show ?thesis by (simp add: parse_vcf_cyvcf_def)
  qed
qed

lemma worker_zero_chunk:
  assumes "chunksize self = 0" "records vcf \<noteq> []"
  shows "isl (parse_vcf_cyvcf bi self vcf tid)"
proof -
  obtain r rs where rs: "records vcf = r # rs" using assms(2) by (cases "records vcf") auto
  have "parse_step bi self vcf tid (0, r) ([], []) = Inl ZeroDivisionError"
    using assms(1) by (simp add: parse_step_def maps_to_thread_def)
  then show ?thesis by (simp add: parse_vcf_cyvcf_def rs enumerate_simps)
qed

lemma run_pool_fails:
  assumes bad: "\<And>vs. v \<in> set vs \<Longrightarrow> isl (create_df bi self vcf vs)"
    and v: "v \<in> set (records vcf)"
  shows "isl (run_pool bi self vcf)"
proof (cases "num_threads self < 1")
  case True
  then show ?thesis by (simp add: run_pool_def)
next
  case False
  then have n: "1 \<le> num_threads self" by simp
  from v obtain j where j: "j < length (records vcf)" "records vcf ! j = v"
    by (auto simp: in_set_conv_nth)
  have "\<exists>t. t \<in> set [0..<nat (num_threads self)] \<and> isl (parse_vcf_cyvcf bi self vcf (int t))"
  proof (cases "chunksize self = 0")
    case True
    from v have "records vcf \<noteq> []" by auto
    from worker_zero_chunk[OF True this, of bi "int 0"] n show ?thesis
      by (intro exI[of _ 0]) simp
  next
    case False
    define t where "t = nat ((int j div chunksize self) mod num_threads self)"
    have nn: "0 \<le> (int j div chunksize self) mod num_threads self"
      and lt: "(int j div chunksize self) mod num_threads self < num_threads self"
      using n by simp_all
    have it: "int t = (int j div chunksize self) mod num_threads self"
      using nn by (simp add: t_def)
    have "maps_to_thread self (int t) (int j) = Inr True"
      using False n it by (simp add: maps_to_thread_def)
    from worker_fails[OF bad this j]
    have "isl (parse_vcf_cyvcf bi self vcf (int t))" .
    moreover have "t \<in> set [0..<nat (num_threads self)]"
      using lt nn by (simp add: t_def)
    ultimately show ?thesis by blast
  qed
  then obtain t where t: "t \<in> set [0..<nat (num_threads self)]"
    and w: "isl (parse_vcf_cyvcf bi self vcf (int t))" by blast
  have "isl (efold (\<lambda>thread_id df_list.
                    ebind (parse_vcf_cyvcf bi self vcf (int thread_id)) (\<lambda>df.
                    Inr (df_list @ [df])))
             [0..<nat (num_threads self)] [])"
    using t by (rule efold_fails) (simp add: isl_ebind_iff w)
  with False show ?thesis by (simp add: run_pool_def)
qed

lemma parse_fails:
  assumes "resolve_schema self vcf = Inr self'"
    "k \<in> set (info_vcf_keys self')
     \<or> k \<in> set (format_vcf_keys self') \<and> k \<noteq> ''GT'' \<and> samples vcf \<noteq> []"
    "get_header_type vcf k = Inr h"
    "Type h \<notin> {''String'', ''Integer'', ''Float'', ''Flag''}"
    "v \<in> set (records vcf)" "ALT v \<noteq> []"
  shows "isl (run_pool bi self' vcf) \<and> isl (parallel_parse_vcf bi self vcf)"
proof -
  have "isl (run_pool bi self' vcf)"
    using assms(5)
    by (rule run_pool_fails[rotated]) (rule create_df_unknown[OF assms(3,4,2,6)])
  then show ?thesis
    using assms(1) by (simp add: parallel_parse_vcf_def isl_ebind_iff)
qed

subsection \<open>A file with a field of type Character\<close>

lemma resolve_character:
  "resolve_schema (new_reader ''a.vcf'' [] False [''XX''] [] [] 1 5000)
       (vcf_of [] [\<lparr>HeaderType = ''INFO'', h_ID = ''XX'', Number = ''1'', Type = ''Character''\<rparr>] rs)
     = Inr ((new_reader ''a.vcf'' [] False [''XX''] [] [] 1 5000)
              \<lparr>info_vcf_key_counts := [(''XX'', Some 1)]\<rparr>)"
  by (simp add: resolve_schema_def key_counts_def new_reader_def vcf_of_def header_lookup_def
      count_of_1)

lemma run_pool_no_records:
  "run_pool refusing_builtins ((new_reader ''a.vcf'' [] False [''XX''] [] [] 1 5000)
              \<lparr>info_vcf_key_counts := [(''XX'', Some 1)]\<rparr>)
       (vcf_of [] [\<lparr>HeaderType = ''INFO'', h_ID = ''XX'', Number = ''1'', Type = ''Character''\<rparr>] [])
   = Inr [[]]"
  by (simp add: run_pool_def parse_vcf_cyvcf_def new_reader_def vcf_of_def enumerate_simps)

lemma run_pool_character:
  "run_pool refusing_builtins ((new_reader ''a.vcf'' [] False [''XX''] [] [] 1 5000)
              \<lparr>info_vcf_key_counts := [(''XX'', Some 1)]\<rparr>)
       (vcf_of [] [\<lparr>HeaderType = ''INFO'', h_ID = ''XX'', Number = ''1'', Type = ''Character''\<rparr>]
          [snv ''A'' [''T'']])
   = Inl (RuntimeError [''Unknown VCF header type:'', ''Character''])"
  using run_pool_unknown_type [of "(new_reader ''a.vcf'' [] False [''XX''] [] [] 1 5000)
              \<lparr>info_vcf_key_counts := [(''XX'', Some 1)]\<rparr>" "''XX''" "[]"
      "vcf_of [] [\<lparr>HeaderType = ''INFO'', h_ID = ''XX'', Number = ''1'', Type = ''Character''\<rparr>]
          [snv ''A'' [''T'']]"
      "\<lparr>HeaderType = ''INFO'', h_ID = ''XX'', Number = ''1'', Type = ''Character''\<rparr>"
      "snv ''A'' [''T'']" "[]" refusing_builtins]
  by (simp add: new_reader_def vcf_of_def header_lookup_def snv_def)

lemma pd_concat_empty: "pd_concat [[]] = Inr []"
  by (simp add: pd_concat_def)

text \<open>
  Claim C8 says that a requested field with a header type other than String, Integer,
  Float or Flag makes the reader raise during schema resolution, before any parallel
  work. It does not: schema resolution never looks at the type. With an INFO field of
  type "Character", schema resolution returns; a file without records is then read
  without any error, and for a file with a record the error is raised by the pool.
\<close>

theorem C8_counterexample:
  "get_header_type_lambda refusing_builtins ''Character''
     = Inl (RuntimeError [''Unknown VCF header type:'', ''Character''])
   \<and> resolve_schema (new_reader ''a.vcf'' [] False [''XX''] [] [] 1 5000)
       (vcf_of [] [\<lparr>HeaderType = ''INFO'', h_ID = ''XX'', Number = ''1'', Type = ''Character''\<rparr>] [])
     = Inr ((new_reader ''a.vcf'' [] False [''XX''] [] [] 1 5000)
              \<lparr>info_vcf_key_counts := [(''XX'', Some 1)]\<rparr>)
   \<and> parallel_parse_vcf refusing_builtins (new_reader ''a.vcf'' [] False [''XX''] [] [] 1 5000)
       (vcf_of [] [\<lparr>HeaderType = ''INFO'', h_ID = ''XX'', Number = ''1'', Type = ''Character''\<rparr>] [])
     = Inr ((new_reader ''a.vcf'' [] False [''XX''] [] [] 1 5000)
              \<lparr>info_vcf_key_counts := [(''XX'', Some 1)], dataframe := Some []\<rparr>)
   \<and> resolve_schema (new_reader ''a.vcf'' [] False [''XX''] [] [] 1 5000)
       (vcf_of [] [\<lparr>HeaderType = ''INFO'', h_ID = ''XX'', Number = ''1'', Type = ''Character''\<rparr>]
          [snv ''A'' [''T'']])
     = Inr ((new_reader ''a.vcf'' [] False [''XX''] [] [] 1 5000)
              \<lparr>info_vcf_key_counts := [(''XX'', Some 1)]\<rparr>)
   \<and> run_pool refusing_builtins ((new_reader ''a.vcf'' [] False [''XX''] [] [] 1 5000)
              \<lparr>info_vcf_key_counts := [(''XX'', Some 1)]\<rparr>)
       (vcf_of [] [\<lparr>HeaderType = ''INFO'', h_ID = ''XX'', Number = ''1'', Type = ''Character''\<rparr>]
          [snv ''A'' [''T'']])
     = Inl (RuntimeError [''Unknown VCF header type:'', ''Character''])"
  by (simp add: type_lambda_unknown resolve_character run_pool_no_records run_pool_character
      pd_concat_empty parallel_parse_vcf_def)

text \<open>
  Claim C8 as amended. \<^verbatim>\<open>_get_header_type_lambda\<close> raises \<^verbatim>\<open>RuntimeError\<close> for every
  type string other than String, Integer, Float and Flag, and returns a conversion for
  these four. Schema resolution does not depend on the declared types: it gives the same
  result when any other types are put in their place. The error comes from the workers.
  Whenever schema resolution has returned, a resolved INFO key, or a resolved FORMAT key
  other than GT in a file with at least one sample, has a type that is none of the four,
  and the stream holds a record with at least one alternate allele, the pool raises and
  with it the whole parse, for every chunk size and thread count and whatever else the
  file holds. When that key is the first INFO key, that record the first of the stream,
  and chunk size and thread count are at least 1, the error raised is the
  \<^verbatim>\<open>RuntimeError\<close> of that type.
\<close>

theorem C8_unknown_type_raised_in_worker:
  "(header_type \<in> {''String'', ''Integer'', ''Float'', ''Flag''}
      \<longrightarrow> \<not> isl (get_header_type_lambda bi header_type))
   \<and> (header_type \<notin> {''String'', ''Integer'', ''Float'', ''Flag''}
      \<longrightarrow> get_header_type_lambda bi header_type
          = Inl (RuntimeError [''Unknown VCF header type:'', header_type]))
   \<and> resolve_schema self (retype f vcf) = resolve_schema self vcf
   \<and> (resolve_schema self vcf = Inr self'
       \<and> (k \<in> set (info_vcf_keys self')
          \<or> k \<in> set (format_vcf_keys self') \<and> k \<noteq> ''GT'' \<and> samples vcf \<noteq> [])
       \<and> get_header_type vcf k = Inr h
       \<and> Type h \<notin> {''String'', ''Integer'', ''Float'', ''Flag''}
       \<and> v \<in> set (records vcf) \<and> ALT v \<noteq> []
      \<longrightarrow> isl (run_pool bi self' vcf) \<and> isl (parallel_parse_vcf bi self vcf))
   \<and> (resolve_schema self vcf = Inr self' \<and> info_vcf_keys self' = k # ks
       \<and> get_header_type vcf k = Inr h
       \<and> Type h \<notin> {''String'', ''Integer'', ''Float'', ''Flag''}
       \<and> records vcf = v # vs \<and> ALT v \<noteq> [] \<and> 1 \<le> chunksize self' \<and> 1 \<le> num_threads self'
      \<longrightarrow> run_pool bi self' vcf = Inl (RuntimeError [''Unknown VCF header type:'', Type h])
        \<and> parallel_parse_vcf bi self vcf
            = Inl (RuntimeError [''Unknown VCF header type:'', Type h]))"
proof (intro conjI impI)
  show "\<not> isl (get_header_type_lambda bi header_type)"
    if "header_type \<in> {''String'', ''Integer'', ''Float'', ''Flag''}"
    using that by (auto simp: get_header_type_lambda_def)
  show "get_header_type_lambda bi header_type
          = Inl (RuntimeError [''Unknown VCF header type:'', header_type])"
    if "header_type \<notin> {''String'', ''Integer'', ''Float'', ''Flag''}"
    using that by (rule type_lambda_unknown)
  show "resolve_schema self (retype f vcf) = resolve_schema self vcf"
    by (rule resolve_schema_retype)
next
  assume a: "resolve_schema self vcf = Inr self'
       \<and> (k \<in> set (info_vcf_keys self')
          \<or> k \<in> set (format_vcf_keys self') \<and> k \<noteq> ''GT'' \<and> samples vcf \<noteq> [])
       \<and> get_header_type vcf k = Inr h
       \<and> Type h \<notin> {''String'', ''Integer'', ''Float'', ''Flag''}
       \<and> v \<in> set (records vcf) \<and> ALT v \<noteq> []"
  then have r: "resolve_schema self vcf = Inr self'"
    and kk: "k \<in> set (info_vcf_keys self')
          \<or> k \<in> set (format_vcf_keys self') \<and> k \<noteq> ''GT'' \<and> samples vcf \<noteq> []"
    and gh: "get_header_type vcf k = Inr h"
    and ty: "Type h \<notin> {''String'', ''Integer'', ''Float'', ''Flag''}"
    and rs: "v \<in> set (records vcf)" and al: "ALT v \<noteq> []"
    by blast+
  from parse_fails[OF r kk gh ty rs al, of bi]
  show "isl (run_pool bi self' vcf)" and "isl (parallel_parse_vcf bi self vcf)"
    by (rule conjunct1, rule conjunct2)
next
  assume a: "resolve_schema self vcf = Inr self' \<and> info_vcf_keys self' = k # ks
       \<and> get_header_type vcf k = Inr h
       \<and> Type h \<notin> {''String'', ''Integer'', ''Float'', ''Flag''}
       \<and> records vcf = v # vs \<and> ALT v \<noteq> [] \<and> 1 \<le> chunksize self' \<and> 1 \<le> num_threads self'"
  then have r: "resolve_schema self vcf = Inr self'" and ik: "info_vcf_keys self' = k # ks"
    and gh: "get_header_type vcf k = Inr h"
    and ty: "Type h \<notin> {''String'', ''Integer'', ''Float'', ''Flag''}"
    and rs: "records vcf = v # vs" and al: "ALT v \<noteq> []"
    and cs: "1 \<le> chunksize self'" and nt: "1 \<le> num_threads self'"
    by blast+
  show "run_pool bi self' vcf = Inl (RuntimeError [''Unknown VCF header type:'', Type h])"
    by (rule run_pool_unknown_type [OF ik gh ty rs al cs nt])
  show "parallel_parse_vcf bi self vcf
            = Inl (RuntimeError [''Unknown VCF header type:'', Type h])"
    by (rule parse_unknown_type [OF r ik gh ty rs al cs nt])
qed

theorem C8_unknown_type_raised_in_worker_witness:
  "''Character'' \<notin> {''String'', ''Integer'', ''Float'', ''Flag''}
   \<and> get_header_type_lambda refusing_builtins ''Character''
       = Inl (RuntimeError [''Unknown VCF header type:'', ''Character''])
   \<and> ''Flag'' \<in> {''String'', ''Integer'', ''Float'', ''Flag''}
   \<and> \<not> isl (get_header_type_lambda refusing_builtins ''Flag'')
   \<and> isl (parallel_parse_vcf refusing_builtins
       (new_reader ''a.vcf'' [] False [''DP'', ''XX''] [] [] 3 2)
       (vcf_of [] [\<lparr>HeaderType = ''INFO'', h_ID = ''DP'', Number = ''1'', Type = ''Integer''\<rparr>,
                   \<lparr>HeaderType = ''INFO'', h_ID = ''XX'', Number = ''1'', Type = ''Character''\<rparr>]
          [snv ''A'' [], snv ''A'' [''T'']]))
   \<and> parallel_parse_vcf refusing_builtins (new_reader ''a.vcf'' [] False [''XX''] [] [] 1 5000)
       (vcf_of [] [\<lparr>HeaderType = ''INFO'', h_ID = ''XX'', Number = ''1'', Type = ''Character''\<rparr>]
          [snv ''A'' [''T'']])
     = Inl (RuntimeError [''Unknown VCF header type:'', ''Character''])"
proof -
  have h1: "''Character'' \<notin> {''String'', ''Integer'', ''Float'', ''Flag''}" by simp
  have h2: "''Flag'' \<in> {''String'', ''Integer'', ''Float'', ''Flag''}" by simp
  have r4: "resolve_schema (new_reader ''a.vcf'' [] False [''DP'', ''XX''] [] [] 3 2)
       (vcf_of [] [\<lparr>HeaderType = ''INFO'', h_ID = ''DP'', Number = ''1'', Type = ''Integer''\<rparr>,
                   \<lparr>HeaderType = ''INFO'', h_ID = ''XX'', Number = ''1'', Type = ''Character''\<rparr>]
          [snv ''A'' [], snv ''A'' [''T'']])
     = Inr ((new_reader ''a.vcf'' [] False [''DP'', ''XX''] [] [] 3 2)
              \<lparr>info_vcf_key_counts := [(''DP'', Some 1), (''XX'', Some 1)]\<rparr>)"
    by (simp add: resolve_schema_def key_counts_def new_reader_def vcf_of_def header_lookup_def
        count_of_1)
  have h4: "resolve_schema (new_reader ''a.vcf'' [] False [''DP'', ''XX''] [] [] 3 2)
       (vcf_of [] [\<lparr>HeaderType = ''INFO'', h_ID = ''DP'', Number = ''1'', Type = ''Integer''\<rparr>,
                   \<lparr>HeaderType = ''INFO'', h_ID = ''XX'', Number = ''1'', Type = ''Character''\<rparr>]
          [snv ''A'' [], snv ''A'' [''T'']])
     = Inr ((new_reader ''a.vcf'' [] False [''DP'', ''XX''] [] [] 3 2)
              \<lparr>info_vcf_key_counts := [(''DP'', Some 1), (''XX'', Some 1)]\<rparr>)
     \<and> (''XX'' \<in> set (info_vcf_keys ((new_reader ''a.vcf'' [] False [''DP'', ''XX''] [] [] 3 2)
              \<lparr>info_vcf_key_counts := [(''DP'', Some 1), (''XX'', Some 1)]\<rparr>))
        \<or> ''XX'' \<in> set (format_vcf_keys ((new_reader ''a.vcf'' [] False [''DP'', ''XX''] [] [] 3 2)
              \<lparr>info_vcf_key_counts := [(''DP'', Some 1), (''XX'', Some 1)]\<rparr>))
          \<and> ''XX'' \<noteq> ''GT''
          \<and> samples (vcf_of []
              [\<lparr>HeaderType = ''INFO'', h_ID = ''DP'', Number = ''1'', Type = ''Integer''\<rparr>,
               \<lparr>HeaderType = ''INFO'', h_ID = ''XX'', Number = ''1'', Type = ''Character''\<rparr>]
              [snv ''A'' [], snv ''A'' [''T'']]) \<noteq> [])
     \<and> get_header_type (vcf_of []
          [\<lparr>HeaderType = ''INFO'', h_ID = ''DP'', Number = ''1'', Type = ''Integer''\<rparr>,
           \<lparr>HeaderType = ''INFO'', h_ID = ''XX'', Number = ''1'', Type = ''Character''\<rparr>]
          [snv ''A'' [], snv ''A'' [''T'']]) ''XX''
        = Inr \<lparr>HeaderType = ''INFO'', h_ID = ''XX'', Number = ''1'', Type = ''Character''\<rparr>
     \<and> Type \<lparr>HeaderType = ''INFO'', h_ID = ''XX'', Number = ''1'', Type = ''Character''\<rparr>
          \<notin> {''String'', ''Integer'', ''Float'', ''Flag''}
     \<and> snv ''A'' [''T''] \<in> set (records (vcf_of []
          [\<lparr>HeaderType = ''INFO'', h_ID = ''DP'', Number = ''1'', Type = ''Integer''\<rparr>,
           \<lparr>HeaderType = ''INFO'', h_ID = ''XX'', Number = ''1'', Type = ''Character''\<rparr>]
          [snv ''A'' [], snv ''A'' [''T'']]))
     \<and> ALT (snv ''A'' [''T'']) \<noteq> []"
    by (simp only: r4) (simp add: new_reader_def vcf_of_def header_lookup_def snv_def)
  have h5: "resolve_schema (new_reader ''a.vcf'' [] False [''XX''] [] [] 1 5000)
       (vcf_of [] [\<lparr>HeaderType = ''INFO'', h_ID = ''XX'', Number = ''1'', Type = ''Character''\<rparr>]
          [snv ''A'' [''T'']])
     = Inr ((new_reader ''a.vcf'' [] False [''XX''] [] [] 1 5000)
              \<lparr>info_vcf_key_counts := [(''XX'', Some 1)]\<rparr>)
     \<and> info_vcf_keys ((new_reader ''a.vcf'' [] False [''XX''] [] [] 1 5000)
              \<lparr>info_vcf_key_counts := [(''XX'', Some 1)]\<rparr>) = ''XX'' # []
     \<and> get_header_type (vcf_of []
          [\<lparr>HeaderType = ''INFO'', h_ID = ''XX'', Number = ''1'', Type = ''Character''\<rparr>]
          [snv ''A'' [''T'']]) ''XX''
        = Inr \<lparr>HeaderType = ''INFO'', h_ID = ''XX'', Number = ''1'', Type = ''Character''\<rparr>
     \<and> Type \<lparr>HeaderType = ''INFO'', h_ID = ''XX'', Number = ''1'', Type = ''Character''\<rparr>
          \<notin> {''String'', ''Integer'', ''Float'', ''Flag''}
     \<and> records (vcf_of []
          [\<lparr>HeaderType = ''INFO'', h_ID = ''XX'', Number = ''1'', Type = ''Character''\<rparr>]
          [snv ''A'' [''T'']]) = snv ''A'' [''T''] # []
     \<and> ALT (snv ''A'' [''T'']) \<noteq> []
     \<and> 1 \<le> chunksize ((new_reader ''a.vcf'' [] False [''XX''] [] [] 1 5000)
              \<lparr>info_vcf_key_counts := [(''XX'', Some 1)]\<rparr>)
     \<and> 1 \<le> num_threads ((new_reader ''a.vcf'' [] False [''XX''] [] [] 1 5000)
              \<lparr>info_vcf_key_counts := [(''XX'', Some 1)]\<rparr>)"
    by (simp add: resolve_character) (simp add: new_reader_def vcf_of_def header_lookup_def snv_def)
  note a = C8_unknown_type_raised_in_worker
    [THEN conjunct2, THEN conjunct1, THEN mp, OF h1, of refusing_builtins]
  note b = C8_unknown_type_raised_in_worker [THEN conjunct1, THEN mp, OF h2, of refusing_builtins]
  note c = C8_unknown_type_raised_in_worker
    [THEN conjunct2, THEN conjunct2, THEN conjunct2, THEN conjunct1, THEN mp, OF h4,
     THEN conjunct2, of refusing_builtins]
  note d = C8_unknown_type_raised_in_worker
    [THEN conjunct2, THEN conjunct2, THEN conjunct2, THEN conjunct2, THEN mp, OF h5,
     THEN conjunct2, of refusing_builtins]
  from h1 h2 a b c d show ?thesis by simp
qed

section \<open>Value types of emitted cells\<close>

lemma info_val_absent:
  "info_val vcf variant header_number info_col = absent_val header_number variant vcf"
  by (simp add: info_val_def)

lemma count_of_0: "get_normalized_count ''0'' a s = Inr (Some 0)"
  by (simp add: get_normalized_count_def isdigit_def isdecimal_def int_of_str_def
      int_of_digits_def digit_value_def)

lemma std_cols_info:
  "std_cols ((snv ''A'' [''T''])\<lparr>INFO := i\<rparr>) ''T'' []
   = [(''chrom'', [PStr ''1'']), (''start_pos'', [PInt 99]), (''end_pos'', [PInt 100]),
      (''id'', [PNone]), (''ref'', [PStr ''A'']), (''alt'', [PStr ''T'']),
      (''variant_type'', [PVType SNP]), (''quality'', [PNone])]"
  by (simp add: std_cols_def snv_def detect_variant_type_def)

lemma info_flag0_present:
  "get_header_type vcf ''DB''
     = Inr \<lparr>HeaderType = ''INFO'', h_ID = ''DB'', Number = ''0'', Type = ''Flag''\<rparr>
   \<Longrightarrow> info_col_step bi vcf ((snv ''A'' [''T''])\<lparr>INFO := i\<rparr>) 0 ''DB'' d = Inr d"
  by (simp add: info_col_step_def snv_def get_header_type_lambda_def info_val_def
      absent_val_def count_of_0 isdigit_def isdecimal_def int_of_str_def int_of_digits_def
      digit_value_def emit_indexed_def)

lemma info_flag1_present:
  "get_header_type vcf ''DB''
     = Inr \<lparr>HeaderType = ''INFO'', h_ID = ''DB'', Number = ''1'', Type = ''Flag''\<rparr>
   \<Longrightarrow> info_col_step bi vcf ((snv ''A'' [''T''])\<lparr>INFO := i\<rparr>) 0 ''DB'' d
       = Inr (df_append ''INFO_DB'' (PBool False) d)"
  by (simp add: info_col_step_def snv_def get_header_type_lambda_def info_val_def
      absent_val_def count_of_1 isdigit_def isdecimal_def int_of_str_def int_of_digits_def
      digit_value_def py_index_def)

lemma info_integer1_present:
  "get_header_type vcf ''DP''
     = Inr \<lparr>HeaderType = ''INFO'', h_ID = ''DP'', Number = ''1'', Type = ''Integer''\<rparr>
   \<Longrightarrow> info_col_step bi vcf ((snv ''A'' [''T''])\<lparr>INFO := i\<rparr>) 0 ''DP'' d
       = Inr (df_append ''INFO_DP'' PNone d)"
  by (simp add: info_col_step_def snv_def get_header_type_lambda_def info_val_def
      absent_val_def count_of_1 isdigit_def isdecimal_def int_of_str_def int_of_digits_def
      digit_value_def py_index_def)

lemma create_df_flag0:
  "create_df bi (new_reader ''a.vcf'' [] False [''DB'', ''DP''] [] [] 1 5000)
     (vcf_of [] [\<lparr>HeaderType = ''INFO'', h_ID = ''DB'', Number = ''0'', Type = ''Flag''\<rparr>,
                 \<lparr>HeaderType = ''INFO'', h_ID = ''DP'', Number = ''1'', Type = ''Integer''\<rparr>] rs)
     [(snv ''A'' [''T''])\<lparr>INFO := [(''DB'', Scalar (PBool True)), (''DP'', Scalar (PInt 14))]\<rparr>]
   = Inr [(''chrom'', [PStr ''1'']), (''start_pos'', [PInt 99]), (''end_pos'', [PInt 100]),
      (''id'', [PNone]), (''ref'', [PStr ''A'']), (''alt'', [PStr ''T'']),
      (''variant_type'', [PVType SNP]), (''quality'', [PNone]), (''INFO_DP'', [PNone])]"
proof -
  have a: "ALT ((snv ''A'' [''T''])\<lparr>INFO := [(''DB'', Scalar (PBool True)),
      (''DP'', Scalar (PInt 14))]\<rparr>) = [''T'']"
    by (simp add: snv_def)
  have k: "info_vcf_keys (new_reader ''a.vcf'' [] False [''DB'', ''DP''] [] [] 1 5000)
      = [''DB'', ''DP'']"
    "format_vcf_keys (new_reader ''a.vcf'' [] False [''DB'', ''DP''] [] [] 1 5000) = []"
    "filter_vcf_keys (new_reader ''a.vcf'' [] False [''DB'', ''DP''] [] [] 1 5000) = []"
    by (simp_all add: new_reader_def)
  have g: "get_header_type (vcf_of []
        [\<lparr>HeaderType = ''INFO'', h_ID = ''DB'', Number = ''0'', Type = ''Flag''\<rparr>,
         \<lparr>HeaderType = ''INFO'', h_ID = ''DP'', Number = ''1'', Type = ''Integer''\<rparr>] rs) ''DB''
      = Inr \<lparr>HeaderType = ''INFO'', h_ID = ''DB'', Number = ''0'', Type = ''Flag''\<rparr>"
    "get_header_type (vcf_of []
        [\<lparr>HeaderType = ''INFO'', h_ID = ''DB'', Number = ''0'', Type = ''Flag''\<rparr>,
         \<lparr>HeaderType = ''INFO'', h_ID = ''DP'', Number = ''1'', Type = ''Integer''\<rparr>] rs) ''DP''
      = Inr \<lparr>HeaderType = ''INFO'', h_ID = ''DP'', Number = ''1'', Type = ''Integer''\<rparr>"
    by (simp_all add: vcf_of_def header_lookup_def)
  show ?thesis
    by (simp add: create_df_def variant_step_def a enumerate_simps alt_step_def std_cols_info
        filter_cols_def k info_flag0_present[OF g(1)] info_integer1_present[OF g(2)]
        from_dict_def nrows_def)
qed

lemma create_df_flag1:
  "create_df bi (new_reader ''a.vcf'' [] False [''DB'', ''DP''] [] [] 1 5000)
     (vcf_of [] [\<lparr>HeaderType = ''INFO'', h_ID = ''DB'', Number = ''1'', Type = ''Flag''\<rparr>,
                 \<lparr>HeaderType = ''INFO'', h_ID = ''DP'', Number = ''1'', Type = ''Integer''\<rparr>] rs)
     [(snv ''A'' [''T''])\<lparr>INFO := [(''DB'', Scalar (PBool True)), (''DP'', Scalar (PInt 14))]\<rparr>]
   = Inr [(''chrom'', [PStr ''1'']), (''start_pos'', [PInt 99]), (''end_pos'', [PInt 100]),
      (''id'', [PNone]), (''ref'', [PStr ''A'']), (''alt'', [PStr ''T'']),
      (''variant_type'', [PVType SNP]), (''quality'', [PNone]),
      (''INFO_DB'', [PBool False]), (''INFO_DP'', [PNone])]"
proof -
  have a: "ALT ((snv ''A'' [''T''])\<lparr>INFO := [(''DB'', Scalar (PBool True)),
      (''DP'', Scalar (PInt 14))]\<rparr>) = [''T'']"
    by (simp add: snv_def)
  have k: "info_vcf_keys (new_reader ''a.vcf'' [] False [''DB'', ''DP''] [] [] 1 5000)
      = [''DB'', ''DP'']"
    "format_vcf_keys (new_reader ''a.vcf'' [] False [''DB'', ''DP''] [] [] 1 5000) = []"
    "filter_vcf_keys (new_reader ''a.vcf'' [] False [''DB'', ''DP''] [] [] 1 5000) = []"
    by (simp_all add: new_reader_def)
  have g: "get_header_type (vcf_of []
        [\<lparr>HeaderType = ''INFO'', h_ID = ''DB'', Number = ''1'', Type = ''Flag''\<rparr>,
         \<lparr>HeaderType = ''INFO'', h_ID = ''DP'', Number = ''1'', Type = ''Integer''\<rparr>] rs) ''DB''
      = Inr \<lparr>HeaderType = ''INFO'', h_ID = ''DB'', Number = ''1'', Type = ''Flag''\<rparr>"
    "get_header_type (vcf_of []
        [\<lparr>HeaderType = ''INFO'', h_ID = ''DB'', Number = ''1'', Type = ''Flag''\<rparr>,
         \<lparr>HeaderType = ''INFO'', h_ID = ''DP'', Number = ''1'', Type = ''Integer''\<rparr>] rs) ''DP''
      = Inr \<lparr>HeaderType = ''INFO'', h_ID = ''DP'', Number = ''1'', Type = ''Integer''\<rparr>"
    by (simp_all add: vcf_of_def header_lookup_def)
  show ?thesis
    by (simp add: create_df_def variant_step_def a enumerate_simps alt_step_def std_cols_info
        filter_cols_def k info_flag1_present[OF g(1)] info_integer1_present[OF g(2)]
        from_dict_def nrows_def)
qed

lemma flag_of_true:
  "ebind (get_header_type_lambda bi ''Flag'') (\<lambda>header_python_type.
     header_python_type (PBool True)) = Inr (PBool True)"
  by (simp add: get_header_type_lambda_def)

text \<open>
  Claim C5 says that the declared type is applied to every raw value of an INFO or
  FORMAT field before it is emitted, and that the emitted value of a Flag field is true
  iff the field is present. For INFO fields the code does not get that far: the test
  \<^verbatim>\<open>info_col in variant.INFO\<close> of line 314 is false for every key, so for every record
  the values the INFO step works on are the placeholder of \<open>None\<close>s, whatever the record
  holds. A record that has the flag \<^verbatim>\<open>DB\<close> (declared Number 0, Type Flag) and
  \<^verbatim>\<open>DP=14\<close> (declared Number 1, Type Integer) gives a row with no column for
  \<^verbatim>\<open>DB\<close> and the cell \<open>None\<close> for \<^verbatim>\<open>DP\<close>; with the flag declared with Number 1
  the cell of \<^verbatim>\<open>DB\<close> is \<open>False\<close>. The Flag conversion itself gives \<open>True\<close> for the
  value \<open>True\<close> the record holds.
\<close>

theorem C5_info_values_not_emitted:
  "info_val vcf variant header_number info_col = absent_val header_number variant vcf
   \<and> create_df bi (new_reader ''a.vcf'' [] False [''DB'', ''DP''] [] [] 1 5000)
     (vcf_of [] [\<lparr>HeaderType = ''INFO'', h_ID = ''DB'', Number = ''0'', Type = ''Flag''\<rparr>,
                 \<lparr>HeaderType = ''INFO'', h_ID = ''DP'', Number = ''1'', Type = ''Integer''\<rparr>] rs)
     [(snv ''A'' [''T''])\<lparr>INFO := [(''DB'', Scalar (PBool True)), (''DP'', Scalar (PInt 14))]\<rparr>]
   = Inr [(''chrom'', [PStr ''1'']), (''start_pos'', [PInt 99]), (''end_pos'', [PInt 100]),
      (''id'', [PNone]), (''ref'', [PStr ''A'']), (''alt'', [PStr ''T'']),
      (''variant_type'', [PVType SNP]), (''quality'', [PNone]), (''INFO_DP'', [PNone])]
   \<and> create_df bi (new_reader ''a.vcf'' [] False [''DB'', ''DP''] [] [] 1 5000)
     (vcf_of [] [\<lparr>HeaderType = ''INFO'', h_ID = ''DB'', Number = ''1'', Type = ''Flag''\<rparr>,
                 \<lparr>HeaderType = ''INFO'', h_ID = ''DP'', Number = ''1'', Type = ''Integer''\<rparr>] rs)
     [(snv ''A'' [''T''])\<lparr>INFO := [(''DB'', Scalar (PBool True)), (''DP'', Scalar (PInt 14))]\<rparr>]
   = Inr [(''chrom'', [PStr ''1'']), (''start_pos'', [PInt 99]), (''end_pos'', [PInt 100]),
      (''id'', [PNone]), (''ref'', [PStr ''A'']), (''alt'', [PStr ''T'']),
      (''variant_type'', [PVType SNP]), (''quality'', [PNone]),
      (''INFO_DB'', [PBool False]), (''INFO_DP'', [PNone])]
   \<and> ebind (get_header_type_lambda bi ''Flag'') (\<lambda>header_python_type.
        header_python_type (PBool True)) = Inr (PBool True)"
  by (simp only: info_val_absent create_df_flag0 create_df_flag1 flag_of_true simp_thms)

section \<open>Rebuilding the INFO dictionary\<close>

lemma count_of_R: "get_normalized_count ''R'' a s = Inr (Some (a + 1))"
  by (simp add: get_normalized_count_def)

lemma resolve_R:
  "resolve_schema (new_reader ''a.vcf'' [] False [''AD''] [] [] 1 5000)
       (vcf_of [] [\<lparr>HeaderType = ''INFO'', h_ID = ''AD'', Number = ''R'', Type = ''Integer''\<rparr>] rs)
     = Inr ((new_reader ''a.vcf'' [] False [''AD''] [] [] 1 5000)
              \<lparr>info_vcf_key_counts := [(''AD'', Some 2)]\<rparr>)"
  by (simp add: resolve_schema_def key_counts_def new_reader_def vcf_of_def header_lookup_def
      count_of_R)

lemma info_R_absent:
  "info_col_step bi
     (vcf_of [] [\<lparr>HeaderType = ''INFO'', h_ID = ''AD'', Number = ''R'', Type = ''Integer''\<rparr>] rs)
     (snv ''A'' [''T'']) 0 ''AD'' d
   = Inr (df_append ''INFO_AD_ALT'' PNone (df_append ''INFO_AD_REF'' PNone d))"
  by (simp add: info_col_step_def vcf_of_def header_lookup_def snv_def
      get_header_type_lambda_def py_index_def info_val_def absent_val_def count_of_R)

lemma create_df_R:
  "create_df bi ((new_reader ''a.vcf'' [] False [''AD''] [] [] 1 5000)
              \<lparr>info_vcf_key_counts := [(''AD'', Some 2)]\<rparr>)
     (vcf_of [] [\<lparr>HeaderType = ''INFO'', h_ID = ''AD'', Number = ''R'', Type = ''Integer''\<rparr>] rs)
     [snv ''A'' [''T'']]
   = Inr [(''chrom'', [PStr ''1'']), (''start_pos'', [PInt 99]), (''end_pos'', [PInt 100]),
      (''id'', [PNone]), (''ref'', [PStr ''A'']), (''alt'', [PStr ''T'']),
      (''variant_type'', [PVType SNP]), (''quality'', [PNone]),
      (''INFO_AD_REF'', [PNone]), (''INFO_AD_ALT'', [PNone])]"
proof -
  have a: "ALT (snv ''A'' [''T'']) = [''T'']"
    by (simp add: snv_def)
  show ?thesis
    by (simp add: create_df_def variant_step_def a enumerate_simps alt_step_def std_cols_plain
        filter_cols_def new_reader_def info_R_absent from_dict_def nrows_def)
qed

lemma pd_concat_R:
  "pd_concat [[(''chrom'', [PStr ''1'']), (''start_pos'', [PInt 99]), (''end_pos'', [PInt 100]),
      (''id'', [PNone]), (''ref'', [PStr ''A'']), (''alt'', [PStr ''T'']),
      (''variant_type'', [PVType SNP]), (''quality'', [PNone]),
      (''INFO_AD_REF'', [PNone]), (''INFO_AD_ALT'', [PNone])]]
  = Inr [(''chrom'', [PStr ''1'']), (''start_pos'', [PInt 99]), (''end_pos'', [PInt 100]),
      (''id'', [PNone]), (''ref'', [PStr ''A'']), (''alt'', [PStr ''T'']),
      (''variant_type'', [PVType SNP]), (''quality'', [PNone]),
      (''INFO_AD_REF'', [PNone]), (''INFO_AD_ALT'', [PNone])]"
  by (simp add: pd_concat_def)

lemma run_pool_R:
  "run_pool bi ((new_reader ''a.vcf'' [] False [''AD''] [] [] 1 5000)
              \<lparr>info_vcf_key_counts := [(''AD'', Some 2)]\<rparr>)
     (vcf_of [] [\<lparr>HeaderType = ''INFO'', h_ID = ''AD'', Number = ''R'', Type = ''Integer''\<rparr>]
        [snv ''A'' [''T'']])
   = Inr [[(''chrom'', [PStr ''1'']), (''start_pos'', [PInt 99]), (''end_pos'', [PInt 100]),
      (''id'', [PNone]), (''ref'', [PStr ''A'']), (''alt'', [PStr ''T'']),
      (''variant_type'', [PVType SNP]), (''quality'', [PNone]),
      (''INFO_AD_REF'', [PNone]), (''INFO_AD_ALT'', [PNone])]]"
proof -
  have r: "records (vcf_of [] [\<lparr>HeaderType = ''INFO'', h_ID = ''AD'', Number = ''R'', Type = ''Integer''\<rparr>]
        [snv ''A'' [''T'']]) = [snv ''A'' [''T'']]"
    by (simp add: vcf_of_def)
  have m: "maps_to_thread ((new_reader ''a.vcf'' [] False [''AD''] [] [] 1 5000)
              \<lparr>info_vcf_key_counts := [(''AD'', Some 2)]\<rparr>) 0 0 = Inr True"
    and c: "chunksize ((new_reader ''a.vcf'' [] False [''AD''] [] [] 1 5000)
              \<lparr>info_vcf_key_counts := [(''AD'', Some 2)]\<rparr>) = 5000"
    and n: "num_threads ((new_reader ''a.vcf'' [] False [''AD''] [] [] 1 5000)
              \<lparr>info_vcf_key_counts := [(''AD'', Some 2)]\<rparr>) = 1"
    by (simp_all add: maps_to_thread_def new_reader_def)
  have p: "parse_vcf_cyvcf bi ((new_reader ''a.vcf'' [] False [''AD''] [] [] 1 5000)
              \<lparr>info_vcf_key_counts := [(''AD'', Some 2)]\<rparr>)
     (vcf_of [] [\<lparr>HeaderType = ''INFO'', h_ID = ''AD'', Number = ''R'', Type = ''Integer''\<rparr>]
        [snv ''A'' [''T'']]) 0
    = Inr [(''chrom'', [PStr ''1'']), (''start_pos'', [PInt 99]), (''end_pos'', [PInt 100]),
      (''id'', [PNone]), (''ref'', [PStr ''A'']), (''alt'', [PStr ''T'']),
      (''variant_type'', [PVType SNP]), (''quality'', [PNone]),
      (''INFO_AD_REF'', [PNone]), (''INFO_AD_ALT'', [PNone])]"
    by (simp add: parse_vcf_cyvcf_def r enumerate_simps parse_step_def m c create_df_R
        pd_concat_R)
  show ?thesis
    by (simp add: run_pool_def n p)
qed

lemma getitem_R:
  "getitem bi ((new_reader ''a.vcf'' [] False [''AD''] [] [] 1 5000)
         \<lparr>info_vcf_key_counts := [(''AD'', Some 2)],
           dataframe := Some [(''chrom'', [PStr ''1'']), (''start_pos'', [PInt 99]),
             (''end_pos'', [PInt 100]), (''id'', [PNone]), (''ref'', [PStr ''A'']),
             (''alt'', [PStr ''T'']), (''variant_type'', [PVType SNP]), (''quality'', [PNone]),
             (''INFO_AD_REF'', [PNone]), (''INFO_AD_ALT'', [PNone])]\<rparr>) 0
   = Inl (KeyError ''INFO_AD_0'')"
  by (simp add: getitem_def iloc_def nrows_def new_reader_def getitem_samples_def
      getitem_filter_def getitem_info_def upt_rec row_get_def str_nat.simps)

lemma count_of_2: "get_normalized_count ''2'' a s = Inr (Some 2)"
  by (simp add: get_normalized_count_def isdigit_def isdecimal_def int_of_str_def
      int_of_digits_def digit_value_def)

lemma resolve_fixed2:
  "resolve_schema (new_reader ''a.vcf'' [] False [''AD''] [] [] 1 5000)
       (vcf_of [] [\<lparr>HeaderType = ''INFO'', h_ID = ''AD'', Number = ''2'', Type = ''Integer''\<rparr>] rs)
     = Inr ((new_reader ''a.vcf'' [] False [''AD''] [] [] 1 5000)
              \<lparr>info_vcf_key_counts := [(''AD'', Some 2)]\<rparr>)"
  by (simp add: resolve_schema_def key_counts_def new_reader_def vcf_of_def header_lookup_def
      count_of_2)

lemma info_fixed2_absent:
  "info_col_step bi
     (vcf_of [] [\<lparr>HeaderType = ''INFO'', h_ID = ''AD'', Number = ''2'', Type = ''Integer''\<rparr>] rs)
     (snv ''A'' [''T'']) 0 ''AD'' d
   = Inr (df_append ''INFO_AD_1'' PNone (df_append ''INFO_AD_0'' PNone d))"
  by (simp add: info_col_step_def vcf_of_def header_lookup_def snv_def
      get_header_type_lambda_def py_index_def info_val_def absent_val_def count_of_2
      isdigit_def isdecimal_def int_of_str_def int_of_digits_def digit_value_def
      emit_indexed_def upt_rec str_nat.simps)

lemma create_df_fixed2:
  "create_df bi ((new_reader ''a.vcf'' [] False [''AD''] [] [] 1 5000)
              \<lparr>info_vcf_key_counts := [(''AD'', Some 2)]\<rparr>)
     (vcf_of [] [\<lparr>HeaderType = ''INFO'', h_ID = ''AD'', Number = ''2'', Type = ''Integer''\<rparr>] rs)
     [snv ''A'' [''T'']]
   = Inr [(''chrom'', [PStr ''1'']), (''start_pos'', [PInt 99]), (''end_pos'', [PInt 100]),
      (''id'', [PNone]), (''ref'', [PStr ''A'']), (''alt'', [PStr ''T'']),
      (''variant_type'', [PVType SNP]), (''quality'', [PNone]),
      (''INFO_AD_0'', [PNone]), (''INFO_AD_1'', [PNone])]"
proof -
  have a: "ALT (snv ''A'' [''T'']) = [''T'']"
    by (simp add: snv_def)
  show ?thesis
    by (simp add: create_df_def variant_step_def a enumerate_simps alt_step_def std_cols_plain
        filter_cols_def new_reader_def info_fixed2_absent from_dict_def nrows_def)
qed

lemma pd_concat_fixed2:
  "pd_concat [[(''chrom'', [PStr ''1'']), (''start_pos'', [PInt 99]), (''end_pos'', [PInt 100]),
      (''id'', [PNone]), (''ref'', [PStr ''A'']), (''alt'', [PStr ''T'']),
      (''variant_type'', [PVType SNP]), (''quality'', [PNone]),
      (''INFO_AD_0'', [PNone]), (''INFO_AD_1'', [PNone])]]
  = Inr [(''chrom'', [PStr ''1'']), (''start_pos'', [PInt 99]), (''end_pos'', [PInt 100]),
      (''id'', [PNone]), (''ref'', [PStr ''A'']), (''alt'', [PStr ''T'']),
      (''variant_type'', [PVType SNP]), (''quality'', [PNone]),
      (''INFO_AD_0'', [PNone]), (''INFO_AD_1'', [PNone])]"
  by (simp add: pd_concat_def)

lemma run_pool_fixed2:
  "run_pool bi ((new_reader ''a.vcf'' [] False [''AD''] [] [] 1 5000)
              \<lparr>info_vcf_key_counts := [(''AD'', Some 2)]\<rparr>)
     (vcf_of [] [\<lparr>HeaderType = ''INFO'', h_ID = ''AD'', Number = ''2'', Type = ''Integer''\<rparr>]
        [snv ''A'' [''T'']])
   = Inr [[(''chrom'', [PStr ''1'']), (''start_pos'', [PInt 99]), (''end_pos'', [PInt 100]),
      (''id'', [PNone]), (''ref'', [PStr ''A'']), (''alt'', [PStr ''T'']),
      (''variant_type'', [PVType SNP]), (''quality'', [PNone]),
      (''INFO_AD_0'', [PNone]), (''INFO_AD_1'', [PNone])]]"
proof -
  have r: "records (vcf_of [] [\<lparr>HeaderType = ''INFO'', h_ID = ''AD'', Number = ''2'', Type = ''Integer''\<rparr>]
        [snv ''A'' [''T'']]) = [snv ''A'' [''T'']]"
    by (simp add: vcf_of_def)
  have m: "maps_to_thread ((new_reader ''a.vcf'' [] False [''AD''] [] [] 1 5000)
              \<lparr>info_vcf_key_counts := [(''AD'', Some 2)]\<rparr>) 0 0 = Inr True"
    and c: "chunksize ((new_reader ''a.vcf'' [] False [''AD''] [] [] 1 5000)
              \<lparr>info_vcf_key_counts := [(''AD'', Some 2)]\<rparr>) = 5000"
    and n: "num_threads ((new_reader ''a.vcf'' [] False [''AD''] [] [] 1 5000)
              \<lparr>info_vcf_key_counts := [(''AD'', Some 2)]\<rparr>) = 1"
    by (simp_all add: maps_to_thread_def new_reader_def)
  have p: "parse_vcf_cyvcf bi ((new_reader ''a.vcf'' [] False [''AD''] [] [] 1 5000)
              \<lparr>info_vcf_key_counts := [(''AD'', Some 2)]\<rparr>)
     (vcf_of [] [\<lparr>HeaderType = ''INFO'', h_ID = ''AD'', Number = ''2'', Type = ''Integer''\<rparr>]
        [snv ''A'' [''T'']]) 0
    = Inr [(''chrom'', [PStr ''1'']), (''start_pos'', [PInt 99]), (''end_pos'', [PInt 100]),
      (''id'', [PNone]), (''ref'', [PStr ''A'']), (''alt'', [PStr ''T'']),
      (''variant_type'', [PVType SNP]), (''quality'', [PNone]),
      (''INFO_AD_0'', [PNone]), (''INFO_AD_1'', [PNone])]"
    by (simp add: parse_vcf_cyvcf_def r enumerate_simps parse_step_def m c create_df_fixed2
        pd_concat_fixed2)
  show ?thesis
    by (simp add: run_pool_def n p)
qed

lemma getitem_fixed2:
  "getitem bi ((new_reader ''a.vcf'' [] False [''AD''] [] [] 1 5000)
         \<lparr>info_vcf_key_counts := [(''AD'', Some 2)],
           dataframe := Some [(''chrom'', [PStr ''1'']), (''start_pos'', [PInt 99]),
             (''end_pos'', [PInt 100]), (''id'', [PNone]), (''ref'', [PStr ''A'']),
             (''alt'', [PStr ''T'']), (''variant_type'', [PVType SNP]), (''quality'', [PNone]),
             (''INFO_AD_0'', [PNone]), (''INFO_AD_1'', [PNone])]\<rparr>) 0
   = Inr \<lparr>var_chrom = PStr ''1'', var_pos = PInt 99, var_id = PNone, var_ref = PStr ''A'',
         var_allele = PStr ''T'', var_quality = PNone, var_filter = None,
         var_info = [(''AD'', Multi [PNone, PNone])], var_format = [], var_type = SNP,
         var_samples = [], var_zygosity = [], var_vcf = ''a.vcf'', var_bams = []\<rparr>"
  by (simp add: getitem_def iloc_def nrows_def new_reader_def getitem_samples_def
      getitem_filter_def getitem_info_def upt_rec row_get_def str_nat.simps py_index_def)

text \<open>
  Claim C6 says that \<^verbatim>\<open>__getitem__\<close> rebuilds the INFO dictionary from the columns
  the decomposition emitted, for every Number code, "R" included. For an INFO key with
  Number "R" the decomposition emits the columns \<^verbatim>\<open>INFO_AD_REF\<close> and
  \<^verbatim>\<open>INFO_AD_ALT\<close>, schema resolution records the count 2, and \<^verbatim>\<open>__getitem__\<close>
  then reads \<^verbatim>\<open>INFO_AD_0\<close>: it raises \<^verbatim>\<open>KeyError\<close> on the first row. The same
  file with the fixed Number "2" is rebuilt: there the names written and read agree.
\<close>

theorem C6_info_R_not_rebuilt:
  "parallel_parse_vcf bi (new_reader ''a.vcf'' [] False [''AD''] [] [] 1 5000)
     (vcf_of [] [\<lparr>HeaderType = ''INFO'', h_ID = ''AD'', Number = ''R'', Type = ''Integer''\<rparr>]
        [snv ''A'' [''T'']])
   = Inr ((new_reader ''a.vcf'' [] False [''AD''] [] [] 1 5000)
         \<lparr>info_vcf_key_counts := [(''AD'', Some 2)],
           dataframe := Some [(''chrom'', [PStr ''1'']), (''start_pos'', [PInt 99]),
             (''end_pos'', [PInt 100]), (''id'', [PNone]), (''ref'', [PStr ''A'']),
             (''alt'', [PStr ''T'']), (''variant_type'', [PVType SNP]), (''quality'', [PNone]),
             (''INFO_AD_REF'', [PNone]), (''INFO_AD_ALT'', [PNone])]\<rparr>)
   \<and> ebind (parallel_parse_vcf bi (new_reader ''a.vcf'' [] False [''AD''] [] [] 1 5000)
        (vcf_of [] [\<lparr>HeaderType = ''INFO'', h_ID = ''AD'', Number = ''R'', Type = ''Integer''\<rparr>]
           [snv ''A'' [''T'']]))
       (\<lambda>self. getitem bi self 0)
     = Inl (KeyError ''INFO_AD_0'')
   \<and> ebind (parallel_parse_vcf bi (new_reader ''a.vcf'' [] False [''AD''] [] [] 1 5000)
        (vcf_of [] [\<lparr>HeaderType = ''INFO'', h_ID = ''AD'', Number = ''2'', Type = ''Integer''\<rparr>]
           [snv ''A'' [''T'']]))
       (\<lambda>self. getitem bi self 0)
     = Inr \<lparr>var_chrom = PStr ''1'', var_pos = PInt 99, var_id = PNone, var_ref = PStr ''A'',
         var_allele = PStr ''T'', var_quality = PNone, var_filter = None,
         var_info = [(''AD'', Multi [PNone, PNone])], var_format = [], var_type = SNP,
         var_samples = [], var_zygosity = [], var_vcf = ''a.vcf'', var_bams = []\<rparr>"
  by (simp add: parallel_parse_vcf_def resolve_R run_pool_R pd_concat_R getitem_R
      resolve_fixed2 run_pool_fixed2 pd_concat_fixed2 getitem_fixed2)

section \<open>One row per record and alternate allele\<close>

lemma map_of_df_append:
  "map_of (df_append k v d) k' = (if k' = k then Some (col d k @ [v]) else map_of d k')"
  by (induction d) (auto simp: col_def)

lemma col_df_append: "col (df_append k v d) k' = (if k' = k then col d k @ [v] else col d k')"
  by (simp add: col_def map_of_df_append)

lemma keys_df_append: "fst ` set (df_append k v d) = insert k (fst ` set d)"
  by (induction d) auto

lemma kept_refl: "kept k d d"
  by (simp add: kept_def)

lemma kept_trans: "kept k d d1 \<Longrightarrow> kept k d1 d2 \<Longrightarrow> kept k d d2"
  by (auto simp: kept_def)

lemma kept_append:
  "kept k d d1 \<Longrightarrow> CHR ''_'' \<in> set key \<Longrightarrow> CHR ''_'' \<notin> set k \<Longrightarrow> kept k d (df_append key v d1)"
  by (auto simp: kept_def col_df_append keys_df_append)

lemma kept_efold:
  assumes "\<And>x s s'. f x s = Inr s' \<Longrightarrow> kept k s s'"
  shows "efold f xs s = Inr s' \<Longrightarrow> kept k s s'"
proof (induction xs arbitrary: s)
  case Nil
  then show ?case by (simp add: kept_refl)
next
  case (Cons x xs)
  then obtain s1 where "f x s = Inr s1" "efold f xs s1 = Inr s'"
    by (auto split: sum.splits)
  then show ?case using assms Cons.IH kept_trans by blast
qed

lemma kept_efold_snd:
  assumes "\<And>x s s'. f x s = Inr s' \<Longrightarrow> kept k (snd s) (snd s')"
  shows "efold f xs s = Inr s' \<Longrightarrow> kept k (snd s) (snd s')"
proof (induction xs arbitrary: s)
  case Nil
  then show ?case by (simp add: kept_refl)
next
  case (Cons x xs)
  then obtain s1 where "f x s = Inr s1" "efold f xs s1 = Inr s'"
    by (auto split: sum.splits)
  then show ?case using assms Cons.IH kept_trans by blast
qed

lemma kept_filter_cols:
  assumes "CHR ''_'' \<notin> set k"
  shows "kept k d (filter_cols self variant d)"
proof -
  have "kept k d (foldl (\<lambda>d c. df_append (''FILTER_'' @ c) (PBool (c \<in> S)) d) d cs)" for S cs
  proof (induction cs arbitrary: d)
    case Nil
    show ?case by (simp add: kept_refl)
  next
    case (Cons c cs)
    have "kept k d (df_append (''FILTER_'' @ c) (PBool (c \<in> S)) d)"
      using assms by (intro kept_append kept_refl) simp_all
    then show ?case using Cons.IH kept_trans by fastforce
  qed
  then show ?thesis by (simp add: filter_cols_def Let_def)
qed

lemma kept_emit_indexed:
  assumes "CHR ''_'' \<notin> set k"
  shows "emit_indexed f df_key val n d = Inr d' \<Longrightarrow> kept k d d'"
  unfolding emit_indexed_def
proof (rule kept_efold)
  fix x s s'
  assume "ebind (py_index val x) (\<lambda>xa. ebind (f xa) (\<lambda>y. Inr (df_append (df_key @ ''_'' @ str_nat x) y s))) = Inr s'"
  then obtain y where "s' = df_append (df_key @ ''_'' @ str_nat x) y s"
    by (auto simp: ebind_Inr_iff)
  then show "kept k s s'" using assms by (auto intro!: kept_append kept_refl)
qed

lemma kept_info_col_step:
  assumes "CHR ''_'' \<notin> set k"
  shows "info_col_step bi vcf variant alt_idx info_col d = Inr d' \<Longrightarrow> kept k d d'"
  unfolding info_col_step_def Let_def
  using assms
  by (auto simp: ebind_Inr_iff split: if_splits
      intro!: kept_append kept_refl dest: kept_emit_indexed[OF assms])

lemma kept_gt_step:
  assumes "CHR ''_'' \<notin> set k"
  shows "gt_step self alt_idx sample_idx sample_name s = Inr s' \<Longrightarrow> kept k (snd s) (snd s')"
  unfolding gt_step_def Let_def
  using assms
  by (cases s) (auto simp: ebind_Inr_iff intro!: kept_append kept_refl)

lemma kept_format_val_step:
  assumes "CHR ''_'' \<notin> set k"
  shows "format_val_step bi vcf variant alt_idx format_col sample_idx sample_name d = Inr d'
    \<Longrightarrow> kept k d d'"
  unfolding format_val_step_def Let_def
  using assms
  by (auto simp: ebind_Inr_iff split: if_splits
      intro!: kept_append kept_refl dest: kept_emit_indexed[OF assms])

lemma kept_format_col_step:
  assumes "CHR ''_'' \<notin> set k"
  shows "format_col_step bi self vcf variant alt_idx format_col s = Inr s'
    \<Longrightarrow> kept k (snd s) (snd s')"
  unfolding format_col_step_def
proof (rule kept_efold_snd)
  fix x :: "nat \<times> string" and t t' :: "int list list \<times> df_dict"
  assume a: "(case x of (sample_idx, sample_name) \<Rightarrow> \<lambda>(gs, d).
        if format_col = ''GT'' then gt_step self alt_idx sample_idx sample_name (gs, d)
        else ebind (format_val_step bi vcf variant alt_idx format_col sample_idx sample_name d)
               (\<lambda>d. Inr (gs, d))) t = Inr t'"
  obtain i n where x: "x = (i, n)" by (cases x)
  obtain gs d where t: "t = (gs, d)" by (cases t)
  show "kept k (snd t) (snd t')"
  proof (cases "format_col = ''GT''")
    case True
    with a x t have "gt_step self alt_idx i n t = Inr t'" by simp
    then show ?thesis by (rule kept_gt_step[OF assms])
  next
    case False
    with a x t obtain d' where "format_val_step bi vcf variant alt_idx format_col i n d = Inr d'"
      and "t' = (gs, d')"
      by (auto simp: ebind_Inr_iff)
    then show ?thesis using kept_format_val_step[OF assms] t by simp
  qed
qed

lemma alt_step_col:
  assumes u: "CHR ''_'' \<notin> set k"
    and std: "\<And>alt d. col (std_cols v alt d) k = col d k @ [g alt]
                \<and> insert k (fst ` set d) \<subseteq> fst ` set (std_cols v alt d)"
    and run: "alt_step bi self vcf v (i, alt) (gs, d) = Inr (gs', d')"
  shows "col d' k = col d k @ [g alt] \<and> insert k (fst ` set d) \<subseteq> fst ` set d'"
proof -
  define d1 where "d1 = filter_cols self v (std_cols v alt d)"
  from run obtain d2 where
    i: "efold (info_col_step bi vcf v i) (info_vcf_keys self) d1 = Inr d2" and
    f: "efold (format_col_step bi self vcf v i) (format_vcf_keys self) (gs, d2) = Inr (gs', d')"
    by (auto simp: alt_step_def Let_def d1_def ebind_Inr_iff)
  have "kept k (std_cols v alt d) d1"
    unfolding d1_def by (rule kept_filter_cols[OF u])
  moreover have "kept k d1 d2"
    using i by (rule kept_efold[rotated]) (rule kept_info_col_step[OF u])
  moreover have "kept k (snd (gs, d2)) (snd (gs', d'))"
    using f by (rule kept_efold_snd[rotated]) (rule kept_format_col_step[OF u])
  ultimately have "kept k (std_cols v alt d) d'"
    using kept_trans by fastforce
  then have A: "col d' k = col (std_cols v alt d) k"
    and B: "fst ` set (std_cols v alt d) \<subseteq> fst ` set d'"
    by (simp_all add: kept_def)
  from std[of alt d] have C: "col (std_cols v alt d) k = col d k @ [g alt]"
    and D: "insert k (fst ` set d) \<subseteq> fst ` set (std_cols v alt d)"
    by (rule conjunct1, rule conjunct2)
  from A C have "col d' k = col d k @ [g alt]" by simp
  moreover from D B have "insert k (fst ` set d) \<subseteq> fst ` set d'" by (rule subset_trans)
  ultimately show ?thesis by (rule conjI)
qed

lemma alts_loop_col:
  assumes u: "CHR ''_'' \<notin> set k"
    and std: "\<And>alt d. col (std_cols v alt d) k = col d k @ [g alt]
                \<and> insert k (fst ` set d) \<subseteq> fst ` set (std_cols v alt d)"
  shows "efold (alt_step bi self vcf v) (enumerate n alts) (gs, d) = Inr (gs', d') \<Longrightarrow>
     col d' k = col d k @ map g alts \<and> fst ` set d \<subseteq> fst ` set d'
     \<and> (alts \<noteq> [] \<longrightarrow> k \<in> fst ` set d') \<and> (alts = [] \<longrightarrow> d' = d)"
proof (induction alts arbitrary: n gs d)
  case Nil
  then show ?case by simp
next
  case (Cons a alts)
  then obtain gs1 d1 where
    s: "alt_step bi self vcf v (n, a) (gs, d) = Inr (gs1, d1)" and
    r: "efold (alt_step bi self vcf v) (enumerate (Suc n) alts) (gs1, d1) = Inr (gs', d')"
    by (auto simp: enumerate_simps split: sum.splits)
  from alt_step_col[OF u std s]
  have 1: "col d1 k = col d k @ [g a]" "k \<in> fst ` set d1" "fst ` set d \<subseteq> fst ` set d1"
    by blast+
  from Cons.IH[OF r]
  have 2: "col d' k = col d1 k @ map g alts" "fst ` set d1 \<subseteq> fst ` set d'" by blast+
  have "col d' k = col d k @ map g (a # alts)" using 1(1) 2(1) by simp
  moreover have "fst ` set d \<subseteq> fst ` set d'" using 1(3) 2(2) by (rule subset_trans)
  moreover have "k \<in> fst ` set d'" using 1(2) 2(2) by (rule subsetD[rotated])
  ultimately show ?case by simp
qed

lemma variants_loop_col:
  assumes u: "CHR ''_'' \<notin> set k"
    and std: "\<And>v alt d. col (std_cols v alt d) k = col d k @ [g v alt]
                \<and> insert k (fst ` set d) \<subseteq> fst ` set (std_cols v alt d)"
  shows "efold (variant_step bi self vcf) vs d = Inr d' \<Longrightarrow>
     col d' k = col d k @ concat (map (\<lambda>v. map (g v) (ALT v)) vs)
     \<and> fst ` set d \<subseteq> fst ` set d'
     \<and> (concat (map ALT vs) \<noteq> [] \<longrightarrow> k \<in> fst ` set d')
     \<and> (concat (map ALT vs) = [] \<longrightarrow> d' = d)"
proof (induction vs arbitrary: d)
  case Nil
  then show ?case by simp
next
  case (Cons v vs)
  then obtain d1 where
    s: "variant_step bi self vcf v d = Inr d1" and
    r: "efold (variant_step bi self vcf) vs d1 = Inr d'"
    by (auto split: sum.splits)
  from s obtain gs1 where
    "efold (alt_step bi self vcf v) (enumerate 0 (ALT v)) (genotypes v, d) = Inr (gs1, d1)"
    by (auto simp: variant_step_def ebind_Inr_iff)
  from alts_loop_col[OF u std this]
  have 1: "col d1 k = col d k @ map (g v) (ALT v)" "fst ` set d \<subseteq> fst ` set d1"
    "ALT v \<noteq> [] \<longrightarrow> k \<in> fst ` set d1" "ALT v = [] \<longrightarrow> d1 = d" by blast+
  from Cons.IH[OF r]
  have 2: "col d' k = col d1 k @ concat (map (\<lambda>v. map (g v) (ALT v)) vs)"
    "fst ` set d1 \<subseteq> fst ` set d'"
    "concat (map ALT vs) \<noteq> [] \<longrightarrow> k \<in> fst ` set d'"
    "concat (map ALT vs) = [] \<longrightarrow> d' = d1" by blast+
  have "col d' k = col d k @ concat (map (\<lambda>v. map (g v) (ALT v)) (v # vs))"
    using 1(1) 2(1) by simp
  moreover have "fst ` set d \<subseteq> fst ` set d'" using 1(2) 2(2) by (rule subset_trans)
  moreover have "concat (map ALT (v # vs)) \<noteq> [] \<longrightarrow> k \<in> fst ` set d'"
    using 1(3) 2(2,3) by (cases "ALT v = []") (simp, blast)
  moreover have "concat (map ALT (v # vs)) = [] \<longrightarrow> d' = d"
    using 1(4) 2(4) by simp
  ultimately show ?case by blast
qed

lemma std_cols_alt:
  "col (std_cols v alt d) ''alt'' = col d ''alt'' @ [PStr alt]
   \<and> insert ''alt'' (fst ` set d) \<subseteq> fst ` set (std_cols v alt d)"
  by (auto simp: std_cols_def Let_def col_df_append keys_df_append)

lemma std_cols_ref:
  "col (std_cols v alt d) ''ref'' = col d ''ref'' @ [PStr (REF v)]
   \<and> insert ''ref'' (fst ` set d) \<subseteq> fst ` set (std_cols v alt d)"
  by (auto simp: std_cols_def Let_def col_df_append keys_df_append)

lemma std_cols_chrom:
  "col (std_cols v alt d) ''chrom'' = col d ''chrom'' @ [PStr (CHROM v)]
   \<and> insert ''chrom'' (fst ` set d) \<subseteq> fst ` set (std_cols v alt d)"
  by (auto simp: std_cols_def Let_def col_df_append keys_df_append)

lemma col_length_nrows:
  assumes "list_all (\<lambda>c. length (snd c) = nrows d) d" "k \<in> fst ` set d"
  shows "length (col d k) = nrows d"
proof -
  from assms(2) obtain xs where "map_of d k = Some xs"
    by (metis domD dom_map_of_conv_image_fst)
  moreover from this have "(k, xs) \<in> set d" by (rule map_of_SomeD)
  ultimately show ?thesis using assms(1) by (auto simp: col_def list_all_iff)
qed

lemma gt_step_01:
  "gt_step (new_reader ''a.vcf'' [] False [''DP4''] [] [''GT''] 1 5000) 0 0 ''sample''
     ([[0, 1, 0]], d)
   = Inr ([[0, 1, 0]],
          df_append ''sample_GT'' (PStr ''0/1'') (df_append ''sample_zyg'' (PZyg HETEROZYGOUS) d))"
  by (simp add: gt_step_def py_index_def fixup_gt_def fix_gt_def detect_zygosity_def
      new_reader_def str_int_def str_nat.simps)

lemma gt_step_01_second:
  "gt_step (new_reader ''a.vcf'' [] False [''DP4''] [] [''GT''] 1 5000) (Suc 0) 0 ''sample''
     ([[0, 1, 0]], d)
   = Inr ([[- 1, - 1, 0]],
          df_append ''sample_GT'' (PStr ''-1/-1'') (df_append ''sample_zyg'' (PZyg NONE) d))"
  by (simp add: gt_step_def py_index_def fixup_gt_def fix_gt_def detect_zygosity_def
      new_reader_def str_int_def str_nat.simps)

lemma info_dp4:
  "i < 2 \<Longrightarrow> info_col_step bi
     (vcf_of [''sample''] [\<lparr>HeaderType = ''INFO'', h_ID = ''DP4'', Number = ''A'', Type = ''Integer''\<rparr>] rs)
     ((snv ''A'' [''T'', ''TG''])\<lparr>INFO := [(''DP4'', Tuple [PInt 5, PInt 6])],
        genotypes := [[0, 1, 0]]\<rparr>) i ''DP4'' d
   = Inr (df_append ''INFO_DP4'' PNone d)"
  by (simp add: info_col_step_def info_val_def absent_val_def get_normalized_count_def
      vcf_of_def header_lookup_def snv_def get_header_type_lambda_def py_index_def)

lemma create_df_scenario:
  "create_df bi (new_reader ''a.vcf'' [] False [''DP4''] [] [''GT''] 1 5000)
     (vcf_of [''sample''] [\<lparr>HeaderType = ''INFO'', h_ID = ''DP4'', Number = ''A'', Type = ''Integer''\<rparr>] [])
     [(snv ''A'' [''T'', ''TG''])\<lparr>INFO := [(''DP4'', Tuple [PInt 5, PInt 6])],
        genotypes := [[0, 1, 0]]\<rparr>]
   = Inr [(''chrom'', [PStr ''1'', PStr ''1'']), (''start_pos'', [PInt 99, PInt 99]),
      (''end_pos'', [PInt 100, PInt 100]), (''id'', [PNone, PNone]),
      (''ref'', [PStr ''A'', PStr ''A'']), (''alt'', [PStr ''T'', PStr ''TG'']),
      (''variant_type'', [PVType SNP, PVType INSERTION]), (''quality'', [PNone, PNone]),
      (''INFO_DP4'', [PNone, PNone]),
      (''sample_zyg'', [PZyg HETEROZYGOUS, PZyg NONE]),
      (''sample_GT'', [PStr ''0/1'', PStr ''-1/-1''])]"
proof -
  have a: "ALT ((snv ''A'' [''T'', ''TG''])\<lparr>INFO := [(''DP4'', Tuple [PInt 5, PInt 6])],
        genotypes := [[0, 1, 0]]\<rparr>) = [''T'', ''TG'']"
    and g: "genotypes ((snv ''A'' [''T'', ''TG''])\<lparr>INFO := [(''DP4'', Tuple [PInt 5, PInt 6])],
        genotypes := [[0, 1, 0]]\<rparr>) = [[0, 1, 0]]"
    by (simp_all add: snv_def)
  have ss: "samples (vcf_of [''sample''] [\<lparr>HeaderType = ''INFO'', h_ID = ''DP4'', Number = ''A'', Type = ''Integer''\<rparr>] []) = [''sample'']"
    by (simp add: vcf_of_def)
  have k: "info_vcf_keys (new_reader ''a.vcf'' [] False [''DP4''] [] [''GT''] 1 5000) = [''DP4'']"
    "format_vcf_keys (new_reader ''a.vcf'' [] False [''DP4''] [] [''GT''] 1 5000) = [''GT'']"
    "filter_vcf_keys (new_reader ''a.vcf'' [] False [''DP4''] [] [''GT''] 1 5000) = []"
    by (simp_all add: new_reader_def)
  have s: "std_cols ((snv ''A'' [''T'', ''TG''])\<lparr>INFO := [(''DP4'', Tuple [PInt 5, PInt 6])],
        genotypes := [[0, 1, 0]]\<rparr>) alt d
      = df_append ''quality'' PNone (df_append ''variant_type'' (PVType (detect_variant_type ''A'' alt))
         (df_append ''alt'' (PStr alt) (df_append ''ref'' (PStr ''A'') (df_append ''id'' PNone
         (df_append ''end_pos'' (PInt 100) (df_append ''start_pos'' (PInt 99)
         (df_append ''chrom'' (PStr ''1'') d)))))))" for alt d
    by (simp add: std_cols_def snv_def)
  show ?thesis
    by (simp add: create_df_def variant_step_def a g enumerate_simps alt_step_def s k
        filter_cols_def format_col_step_def ss info_dp4 gt_step_01 gt_step_01_second
        detect_variant_type_def from_dict_def nrows_def)
qed

lemma create_df_rows:
  assumes "create_df bi self vcf variant_list = Inr d"
  shows "nrows d = (\<Sum>v\<leftarrow>variant_list. length (ALT v))
    \<and> list_all (\<lambda>c. length (snd c) = nrows d) d
    \<and> col d ''alt'' = concat (map (\<lambda>v. map PStr (ALT v)) variant_list)
    \<and> col d ''ref'' = concat (map (\<lambda>v. map (\<lambda>alt. PStr (REF v)) (ALT v)) variant_list)
    \<and> col d ''chrom'' = concat (map (\<lambda>v. map (\<lambda>alt. PStr (CHROM v)) (ALT v)) variant_list)"
proof -
  from assms obtain d' where
    l: "efold (variant_step bi self vcf) variant_list [] = Inr d'" and
    f: "from_dict d' = Inr d"
    by (auto simp: create_df_def ebind_Inr_iff)
  from f have d: "d' = d" and eq: "list_all (\<lambda>c. length (snd c) = nrows d) d"
    by (auto simp: from_dict_def split: if_splits)
  have a: "col d ''alt'' = concat (map (\<lambda>v. map PStr (ALT v)) variant_list)"
    "concat (map ALT variant_list) \<noteq> [] \<longrightarrow> ''alt'' \<in> fst ` set d"
    "concat (map ALT variant_list) = [] \<longrightarrow> d = []"
    using variants_loop_col[of "''alt''" "\<lambda>v alt. PStr alt", OF _ std_cols_alt l] d
    by (simp_all add: col_def)
  have r: "col d ''ref'' = concat (map (\<lambda>v. map (\<lambda>alt. PStr (REF v)) (ALT v)) variant_list)"
    using variants_loop_col[of "''ref''" "\<lambda>v alt. PStr (REF v)", OF _ std_cols_ref l] d
    by (simp add: col_def)
  have c: "col d ''chrom'' = concat (map (\<lambda>v. map (\<lambda>alt. PStr (CHROM v)) (ALT v)) variant_list)"
    using variants_loop_col[of "''chrom''" "\<lambda>v alt. PStr (CHROM v)", OF _ std_cols_chrom l] d
    by (simp add: col_def)
  have len: "length (col d ''alt'') = (\<Sum>v\<leftarrow>variant_list. length (ALT v))"
    by (simp add: a(1) length_concat comp_def)
  have "nrows d = (\<Sum>v\<leftarrow>variant_list. length (ALT v))"
  proof (cases "concat (map ALT variant_list) = []")
    case True
    with a(3) have "d = []" by simp
    moreover from True have "(\<Sum>v\<leftarrow>variant_list. length (ALT v)) = 0"
      by (induction variant_list) auto
    ultimately show ?thesis by (simp add: nrows_def)
  next
    case False
    with a(2) have "''alt'' \<in> fst ` set d" by simp
    from col_length_nrows[OF eq this] len show ?thesis by simp
  qed
  with eq a(1) r c show ?thesis by blast
qed

lemma map_fst_df_append:
  "map fst (df_append k v d) = (if k \<in> fst ` set d then map fst d else map fst d @ [k])"
  by (induction d) auto

lemma distinct_df_append:
  "distinct (map fst d) \<Longrightarrow> distinct (map fst (df_append k v d))"
  by (simp add: map_fst_df_append)

lemma std_cols_shape:
  "distinct (map fst d) \<Longrightarrow> distinct (map fst (std_cols v alt d))"
  "fst ` set (std_cols v alt d) = fst ` set d \<union> set std_keys"
  "length (col (std_cols v alt d) k) = length (col d k) + (if k \<in> set std_keys then 1 else 0)"
  by (auto simp: std_cols_def Let_def distinct_df_append keys_df_append col_df_append
      std_keys_def)

lemma filter_fold_shape:
  "distinct (map fst d) \<Longrightarrow> distinct cs \<Longrightarrow>
   distinct (map fst (foldl (\<lambda>d c. df_append (''FILTER_'' @ c) (PBool (c \<in> S)) d) d cs))
   \<and> fst ` set (foldl (\<lambda>d c. df_append (''FILTER_'' @ c) (PBool (c \<in> S)) d) d cs)
       = fst ` set d \<union> (\<lambda>c. ''FILTER_'' @ c) ` set cs
   \<and> length (col (foldl (\<lambda>d c. df_append (''FILTER_'' @ c) (PBool (c \<in> S)) d) d cs) k)
       = length (col d k) + (if k \<in> (\<lambda>c. ''FILTER_'' @ c) ` set cs then 1 else 0)"
proof (induction cs arbitrary: d)
  case Nil
  then show ?case by simp
next
  case (Cons c cs)
  let ?d1 = "df_append (''FILTER_'' @ c) (PBool (c \<in> S)) d"
  have d1: "distinct (map fst ?d1)" using Cons.prems(1) by (rule distinct_df_append)
  have cs: "distinct cs" and c: "c \<notin> set cs" using Cons.prems(2) by simp_all
  note ih = Cons.IH[OF d1 cs]
  have k1: "fst ` set ?d1 = insert (''FILTER_'' @ c) (fst ` set d)" by (rule keys_df_append)
  have l1: "length (col ?d1 k) = length (col d k) + (if k = ''FILTER_'' @ c then 1 else 0)"
    by (simp add: col_df_append)
  have nk: "''FILTER_'' @ c \<notin> (\<lambda>c. ''FILTER_'' @ c) ` set cs" using c by auto
  show ?case
    using ih k1 l1 nk by (auto simp del: append.simps)
qed

lemma filter_cols_shape:
  assumes "distinct (map fst d)" "distinct (filter_vcf_keys self)"
  shows "distinct (map fst (filter_cols self v d))"
    "fst ` set (filter_cols self v d)
       = fst ` set d \<union> (\<lambda>c. ''FILTER_'' @ c) ` set (filter_vcf_keys self)"
    "length (col (filter_cols self v d) k)
       = length (col d k)
         + (if k \<in> (\<lambda>c. ''FILTER_'' @ c) ` set (filter_vcf_keys self) then 1 else 0)"
  using filter_fold_shape[OF assms] by (simp_all add: filter_cols_def Let_def)

lemma uniform_empty: "uniform K 0 []"
  by (simp add: uniform_def col_def)

lemma std_not_filter: "k \<in> set std_keys \<Longrightarrow> k \<notin> (\<lambda>c. ''FILTER_'' @ c) ` S"
  by (auto simp: std_keys_def)

lemma uniform_row:
  assumes u: "uniform K n d" and fk: "distinct (filter_vcf_keys self)"
    and K: "K = set std_keys \<union> (\<lambda>c. ''FILTER_'' @ c) ` set (filter_vcf_keys self)"
  shows "uniform K (Suc n) (filter_cols self v (std_cols v alt d))"
proof -
  let ?s = "std_cols v alt d"
  let ?f = "filter_cols self v ?s"
  from u have dd: "distinct (map fst d)" and sub: "fst ` set d \<subseteq> K"
    and len: "\<And>k. k \<in> K \<Longrightarrow> length (col d k) = n"
    by (auto simp: uniform_def)
  have ds: "distinct (map fst ?s)" using dd by (rule std_cols_shape(1))
  have 1: "distinct (map fst ?f)" using ds fk by (rule filter_cols_shape(1))
  have 2: "fst ` set ?f = K"
    using sub by (auto simp: filter_cols_shape(2)[OF ds fk] std_cols_shape(2) K)
  have 3: "length (col ?f k) = Suc n" if "k \<in> K" for k
    using that len[OF that] std_not_filter[of k "set (filter_vcf_keys self)"]
    by (auto simp: filter_cols_shape(3)[OF ds fk] std_cols_shape(3) K)
  from 1 2 3 show ?thesis by (simp add: uniform_def)
qed

lemma uniform_from_dict:
  assumes "uniform K n d"
  shows "from_dict d = Inr d"
proof -
  from assms have dd: "distinct (map fst d)" and ks: "d \<noteq> [] \<Longrightarrow> fst ` set d = K"
    and len: "\<And>k. k \<in> K \<Longrightarrow> length (col d k) = n"
    by (auto simp: uniform_def)
  have e: "length (snd c) = n" if "c \<in> set d" for c
  proof -
    from that have "d \<noteq> []" by auto
    with ks that have "fst c \<in> K" by auto
    moreover from dd that have "map_of d (fst c) = Some (snd c)" by simp
    ultimately show ?thesis using len[of "fst c"] by (simp add: col_def)
  qed
  then have "nrows d = n" if "d \<noteq> []"
    using that by (cases d) (auto simp: nrows_def)
  with e show ?thesis
    by (cases d) (auto simp: from_dict_def list_all_iff nrows_def)
qed

lemma alts_loop_total:
  assumes fk: "distinct (filter_vcf_keys self)"
    and K: "K = set std_keys \<union> (\<lambda>c. ''FILTER_'' @ c) ` set (filter_vcf_keys self)"
    and i: "info_vcf_keys self = []" and f: "format_vcf_keys self = []"
  shows "uniform K n d \<Longrightarrow>
    \<exists>d'. efold (alt_step bi self vcf v) (enumerate m alts) (gs, d) = Inr (gs, d')
       \<and> uniform K (n + length alts) d'"
proof (induction alts arbitrary: m n d)
  case Nil
  then show ?case by simp
next
  case (Cons a alts)
  have s: "alt_step bi self vcf v (m, a) (gs, d) = Inr (gs, filter_cols self v (std_cols v a d))"
    by (simp add: alt_step_def Let_def i f)
  from uniform_row[OF Cons.prems fk K]
  have "uniform K (Suc n) (filter_cols self v (std_cols v a d))" .
  from Cons.IH[OF this] s show ?case by (simp add: enumerate_simps)
qed

lemma variants_loop_total:
  assumes fk: "distinct (filter_vcf_keys self)"
    and K: "K = set std_keys \<union> (\<lambda>c. ''FILTER_'' @ c) ` set (filter_vcf_keys self)"
    and i: "info_vcf_keys self = []" and f: "format_vcf_keys self = []"
  shows "uniform K n d \<Longrightarrow>
    \<exists>d'. efold (variant_step bi self vcf) vs d = Inr d'
       \<and> uniform K (n + (\<Sum>v\<leftarrow>vs. length (ALT v))) d'"
proof (induction vs arbitrary: n d)
  case Nil
  then show ?case by simp
next
  case (Cons v vs)
  from alts_loop_total[OF fk K i f Cons.prems, of bi vcf v 0 "ALT v" "genotypes v"]
  obtain d1 where 1: "variant_step bi self vcf v d = Inr d1"
    and u1: "uniform K (n + length (ALT v)) d1"
    by (auto simp: variant_step_def)
  from Cons.IH[OF u1] 1 show ?case by (simp add: add.assoc)
qed

lemma create_df_total:
  assumes "info_vcf_keys self = []" "format_vcf_keys self = []"
    "distinct (filter_vcf_keys self)"
  shows "\<exists>d. create_df bi self vcf variant_list = Inr d"
proof -
  from variants_loop_total[OF assms(3) refl assms(1,2) uniform_empty, of bi vcf variant_list]
  obtain d' where "efold (variant_step bi self vcf) variant_list [] = Inr d'"
    and "uniform (set std_keys \<union> (\<lambda>c. ''FILTER_'' @ c) ` set (filter_vcf_keys self))
           (0 + (\<Sum>v\<leftarrow>variant_list. length (ALT v))) d'"
    by blast
  then show ?thesis
    using uniform_from_dict by (auto simp: create_df_def)
qed

text \<open>
  Claim C3. When \<^verbatim>\<open>_create_df\<close> returns a data frame for a list of records, the
  frame has exactly one row per (record, alternate allele) pair: its number of rows is
  the sum of the records' numbers of alternate alleles, every column has that length,
  and the columns \<^verbatim>\<open>alt\<close>, \<^verbatim>\<open>ref\<close> and \<^verbatim>\<open>chrom\<close> list, record after record, the
  alternate alleles of the record in their order. With no INFO and no FORMAT keys
  requested and no filter key twice, \<^verbatim>\<open>_create_df\<close> returns for every list of records.
\<close>

theorem C3_row_count:
  "(create_df bi self vcf variant_list = Inr d
      \<longrightarrow> nrows d = (\<Sum>v\<leftarrow>variant_list. length (ALT v))
        \<and> list_all (\<lambda>c. length (snd c) = nrows d) d
        \<and> col d ''alt'' = concat (map (\<lambda>v. map PStr (ALT v)) variant_list)
        \<and> col d ''ref'' = concat (map (\<lambda>v. map (\<lambda>alt. PStr (REF v)) (ALT v)) variant_list)
        \<and> col d ''chrom''
            = concat (map (\<lambda>v. map (\<lambda>alt. PStr (CHROM v)) (ALT v)) variant_list))
   \<and> (info_vcf_keys self = [] \<and> format_vcf_keys self = [] \<and> distinct (filter_vcf_keys self)
      \<longrightarrow> (\<exists>d'. create_df bi self vcf variant_list = Inr d'))"
  using create_df_rows [of bi self vcf variant_list d]
    create_df_total [of self bi vcf variant_list]
  by blast

theorem C3_row_count_witness:
  "create_df refusing_builtins (new_reader ''a.vcf'' [] False [''DP4''] [] [''GT''] 1 5000)
     (vcf_of [''sample''] [\<lparr>HeaderType = ''INFO'', h_ID = ''DP4'', Number = ''A'', Type = ''Integer''\<rparr>] [])
     [(snv ''A'' [''T'', ''TG''])\<lparr>INFO := [(''DP4'', Tuple [PInt 5, PInt 6])],
        genotypes := [[0, 1, 0]]\<rparr>]
   = Inr [(''chrom'', [PStr ''1'', PStr ''1'']), (''start_pos'', [PInt 99, PInt 99]),
      (''end_pos'', [PInt 100, PInt 100]), (''id'', [PNone, PNone]),
      (''ref'', [PStr ''A'', PStr ''A'']), (''alt'', [PStr ''T'', PStr ''TG'']),
      (''variant_type'', [PVType SNP, PVType INSERTION]), (''quality'', [PNone, PNone]),
      (''INFO_DP4'', [PNone, PNone]),
      (''sample_zyg'', [PZyg HETEROZYGOUS, PZyg NONE]),
      (''sample_GT'', [PStr ''0/1'', PStr ''-1/-1''])]
   \<and> nrows [(''chrom'', [PStr ''1'', PStr ''1'']), (''start_pos'', [PInt 99, PInt 99]),
      (''end_pos'', [PInt 100, PInt 100]), (''id'', [PNone, PNone]),
      (''ref'', [PStr ''A'', PStr ''A'']), (''alt'', [PStr ''T'', PStr ''TG'']),
      (''variant_type'', [PVType SNP, PVType INSERTION]), (''quality'', [PNone, PNone]),
      (''INFO_DP4'', [PNone, PNone]),
      (''sample_zyg'', [PZyg HETEROZYGOUS, PZyg NONE]),
      (''sample_GT'', [PStr ''0/1'', PStr ''-1/-1''])] = 2"
proof -
  note e = create_df_scenario [of refusing_builtins]
  have a: "ALT ((snv ''A'' [''T'', ''TG''])\<lparr>INFO := [(''DP4'', Tuple [PInt 5, PInt 6])],
        genotypes := [[0, 1, 0]]\<rparr>) = [''T'', ''TG'']"
    by (simp add: snv_def)
  from C3_row_count [THEN conjunct1, THEN mp, OF e, THEN conjunct1] a e
  show ?thesis by simp
qed

end
